theory Spec2Isabelle
  imports Complex_Main "HOL-Library.Char_ord" "HOL-Library.List_Lexorder" "HOL-Library.Multiset"
begin

section \<open>Strings and primitive values\<close>

text \<open>
  Strings are byte lists. The JavaScript string operations used by \<open>DataProcessor\<close> are
  modelled on the ASCII range: \<open>toLowerCase\<close> maps \<open>A\<close>..\<open>Z\<close> to \<open>a\<close>..\<open>z\<close> and leaves every
  other byte alone, \<open>\d\<close> is \<open>0\<close>..\<open>9\<close>, \<open>\s\<close> is the six ASCII white-space characters.
  Numbers are exact rationals: \<open>parseInt\<close> rounds a long digit run to a double, as the
  code does, and the arithmetic on the numbers read is taken exactly.
\<close>

definition lower_char :: "char \<Rightarrow> char" where
  "lower_char c =
     (case map_of (zip ''ABCDEFGHIJKLMNOPQRSTUVWXYZ'' ''abcdefghijklmnopqrstuvwxyz'') c of
        Some d \<Rightarrow> d
      | None \<Rightarrow> c)"

definition toLowerCase :: "string \<Rightarrow> string" where
  "toLowerCase s = map lower_char s"

definition is_digit :: "char \<Rightarrow> bool" where
  "is_digit c = (c \<in> set ''0123456789'')"

definition is_upper :: "char \<Rightarrow> bool" where
  "is_upper c = (c \<in> set ''ABCDEFGHIJKLMNOPQRSTUVWXYZ'')"

definition is_space :: "char \<Rightarrow> bool" where
  "is_space c = (c \<in> set [CHR '' '', CHR 0x09, CHR 0x0A, CHR 0x0B, CHR 0x0C, CHR 0x0D])"

definition digit_value :: "char \<Rightarrow> nat" where
  "digit_value c =
     (case map_of (zip ''0123456789'' [0, 1, 2, 3, 4, 5, 6, 7, 8, 9]) c of
        Some n \<Rightarrow> n
      | None \<Rightarrow> 0)"

text \<open>The integer a string of decimal digits denotes.\<close>

definition decimal_value :: "string \<Rightarrow> nat" where
  "decimal_value ds = foldl (\<lambda>acc c. 10 * acc + digit_value c) 0 ds"

text \<open>The number of binary digits of a natural number.\<close>

fun bit_length :: "nat \<Rightarrow> nat" where
  "bit_length 0 = 0"
| "bit_length (Suc n) = Suc (bit_length (Suc n div 2))"

text \<open>
  The double nearest to a natural number. A number of at most 53 binary digits, that
  is one below \<open>2 ^ 53\<close>, is a double. A double has 53 significant binary digits, so a
  larger number is rounded to a multiple of \<open>2 ^ k\<close>, \<open>k\<close> being the number of its binary
  digits beyond 53: to the nearest multiple, and of two equally near ones to the one
  with the even quotient.
\<close>

definition round_to_double :: "nat \<Rightarrow> nat" where
  "round_to_double n =
     (if bit_length n \<le> 53 then n
      else (let k = bit_length n - 53;
                q = n div 2 ^ k;
                r = n mod 2 ^ k
            in if 2 ^ (k - 1) < r \<or> (r = 2 ^ (k - 1) \<and> odd q) then (q + 1) * 2 ^ k
               else q * 2 ^ k))"

text \<open>
  \<open>parseInt\<close> on a string of decimal digits (what the capture group \<open>(\d+)\<close> holds): the
  double nearest to the integer the digits denote. (ECMAScript allows an implementation
  to read the digits after the 20th as zeros; the engines round the value of the whole
  run, as is done here.) A run of more than 308 digits can denote more than the largest
  double, which the code reads as \<open>Infinity\<close>; the model has no such number, and the
  statements about \<open>parseInt\<close> stop at 308 digits.
\<close>

definition parseInt :: "string \<Rightarrow> nat" where
  "parseInt ds = round_to_double (decimal_value ds)"

datatype js_error = TypeError string | Error string

fun message :: "js_error \<Rightarrow> string" where
  "message (TypeError m) = m"
| "message (Error m) = m"

text \<open>
  The primitive values a caller can hand to \<open>parseTimeInStatus\<close>: a CSV cell is a string,
  a missing cell is \<open>undefined\<close>. Symbols, BigInts and objects are outside the model.
\<close>

datatype js_value = JUndefined | JNull | JBool bool | JNumber rat | JNaN | JString string

text \<open>\<open>!v\<close>\<close>

fun falsy :: "js_value \<Rightarrow> bool" where
  "falsy JUndefined = True"
| "falsy JNull = True"
| "falsy (JBool b) = (\<not> b)"
| "falsy (JNumber x) = (x = 0)"
| "falsy JNaN = True"
| "falsy (JString s) = (s = [])"

text \<open>Truthiness of a cell read from a record: \<open>undefined\<close> and \<open>''\<close> are falsy.\<close>

fun truthy :: "string option \<Rightarrow> bool" where
  "truthy None = False"
| "truthy (Some s) = (s \<noteq> [])"

section \<open>Time/SLA engine: \<open>parseTimeInStatus\<close>\<close>

text \<open>
  \<open>timeString.match(/(\d+)u/)?.[1]\<close> for a unit letter \<open>u\<close>: the regular expression engine
  tries every start position from the left; at a position the greedy \<open>\d+\<close> takes the whole
  digit run and the next character must be \<open>u\<close> (backtracking into the run cannot help,
  since \<open>u\<close> is no digit). The result is the captured digit string of the leftmost match.
\<close>

fun match_count :: "char \<Rightarrow> string \<Rightarrow> string option" where
  "match_count u [] = None"
| "match_count u (c # cs) =
     (let ds = takeWhile is_digit (c # cs); rest = dropWhile is_digit (c # cs)
      in if ds \<noteq> [] \<and> take 1 rest = [u] then Some ds else match_count u cs)"

text \<open>\<open>parseInt(timeString.match(/(\d+)u/)?.[1] || 0)\<close>\<close>

definition unit_count :: "char \<Rightarrow> string \<Rightarrow> nat" where
  "unit_count u s = (case match_count u s of Some ds \<Rightarrow> parseInt ds | None \<Rightarrow> 0)"

text \<open>
  The body of the \<open>try\<close> block. On a value that is not a string, \<open>timeString.match\<close> is
  \<open>undefined\<close> and calling it raises a \<open>TypeError\<close>.
\<close>

fun parseTimeInStatus_try :: "js_value \<Rightarrow> js_error + rat" where
  "parseTimeInStatus_try (JString s) =
     Inr (of_nat (unit_count CHR ''w'' s) * 7 + of_nat (unit_count CHR ''d'' s)
          + of_nat (unit_count CHR ''h'' s) / 24)"
| "parseTimeInStatus_try v = Inl (TypeError ''timeString.match is not a function'')"

definition parseTimeInStatus :: "js_value \<Rightarrow> js_error + rat" where
  "parseTimeInStatus timeString =
     (if falsy timeString \<or> timeString = JString ''-'' \<or> timeString = JString ''No data''
      then Inr 0
      else (case parseTimeInStatus_try timeString of
              Inr days \<Rightarrow> Inr days
            | Inl err \<Rightarrow> Inr 0))"


text \<open>A string in which none of the three patterns occurs.\<close>

definition unparseable :: "string \<Rightarrow> bool" where
  "unparseable s =
     (match_count CHR ''w'' s = None \<and> match_count CHR ''d'' s = None
      \<and> match_count CHR ''h'' s = None)"

section \<open>Time/SLA engine: \<open>calculateSLAStatus\<close>\<close>

record sla_status =
  sla_class :: string
  sla_text :: string

definition COMPLETED_STATUSES :: "string list" where
  "COMPLETED_STATUSES =
     [''done'', ''completed'', ''closed'', ''released'', ''deployed to production'',
      ''signed off'']"

text \<open>\<open>this.COMPLETED_STATUSES.includes(status?.toLowerCase())\<close>; \<open>None\<close> is \<open>undefined\<close>.\<close>

definition is_completed :: "string option \<Rightarrow> bool" where
  "is_completed status =
     (case status of None \<Rightarrow> False | Some s \<Rightarrow> toLowerCase s \<in> set COMPLETED_STATUSES)"

text \<open>
  The threshold object maps lower-cased status names (and \<open>default\<close>) to integer days.
  \<open>getSLAThresholds\<close> returns the configured object when \<open>window.slaConfig\<close> exists and
  the built-in table otherwise.
\<close>

type_synonym thresholds = "string \<rightharpoonup> int"

definition getSLAThresholds :: "thresholds option \<Rightarrow> thresholds" where
  "getSLAThresholds slaConfig =
     (case slaConfig of
        Some configured \<Rightarrow> configured
      | None \<Rightarrow>
          map_of [(''to do'', 15), (''todo'', 15), (''refinement'', 10),
                  (''refinement ready'', 10), (''ready for refinement'', 10),
                  (''in progress'', 20), (''in development'', 20), (''paused'', 20),
                  (''default'', 30)])"

text \<open>
  Reading a property of the threshold object. An own entry is a number. A name the
  object does not own is looked up on \<open>Object.prototype\<close>; of its property names only
  \<open>constructor\<close> and \<open>__proto__\<close> are fixed by \<open>toLowerCase\<close>, and both hold an object.
  Every other name reads as \<open>undefined\<close>.
\<close>

datatype threshold_value = ThNumber int | ThInherited | ThUndefined

definition get_property :: "thresholds \<Rightarrow> string \<Rightarrow> threshold_value" where
  "get_property th k =
     (case th k of
        Some n \<Rightarrow> ThNumber n
      | None \<Rightarrow> if k \<in> set [''constructor'', ''__proto__''] then ThInherited else ThUndefined)"

text \<open>The property name that \<open>status?.toLowerCase()\<close> selects.\<close>

definition status_key :: "string option \<Rightarrow> string" where
  "status_key status = (case status of None \<Rightarrow> ''undefined'' | Some s \<Rightarrow> toLowerCase s)"

text \<open>\<open>a || b\<close> on threshold values: \<open>0\<close> and \<open>undefined\<close> are falsy.\<close>

fun or_else :: "threshold_value \<Rightarrow> threshold_value \<Rightarrow> threshold_value" where
  "or_else (ThNumber n) b = (if n = 0 then b else ThNumber n)"
| "or_else ThInherited b = ThInherited"
| "or_else ThUndefined b = b"

text \<open>
  \<open>days >= threshold\<close>: an object or \<open>undefined\<close> converts to \<open>NaN\<close>, and every comparison
  with \<open>NaN\<close> is false.
\<close>

fun days_reach :: "rat \<Rightarrow> threshold_value \<Rightarrow> bool" where
  "days_reach days (ThNumber n) = (of_int n \<le> days)"
| "days_reach days ThInherited = False"
| "days_reach days ThUndefined = False"

definition calculateSLAStatus ::
  "thresholds \<Rightarrow> string option \<Rightarrow> js_value \<Rightarrow> js_error + sla_status" where
  "calculateSLAStatus thresholds status timeString =
     (if is_completed status then Inr \<lparr>sla_class = ''closed'', sla_text = ''Closed''\<rparr>
      else (case parseTimeInStatus timeString of
              Inl err \<Rightarrow> Inl err
            | Inr days \<Rightarrow>
                (let threshold = or_else (get_property thresholds (status_key status))
                                         (get_property thresholds ''default'')
                 in if days_reach days threshold
                    then Inr \<lparr>sla_class = ''at-risk'', sla_text = ''At Risk''\<rparr>
                    else Inr \<lparr>sla_class = ''on-track'', sla_text = ''On Track''\<rparr>)))"

text \<open>
  The classification as the specification words it: the threshold of the lower-cased
  status, and the \<open>default\<close> entry exactly when the status is unlisted.
\<close>

definition spec_threshold :: "thresholds \<Rightarrow> string \<Rightarrow> int option" where
  "spec_threshold th s =
     (case th (toLowerCase s) of Some n \<Rightarrow> Some n | None \<Rightarrow> th ''default'')"

definition spec_calculateSLAStatus :: "thresholds \<Rightarrow> string \<Rightarrow> string \<Rightarrow> sla_status option" where
  "spec_calculateSLAStatus th s txt =
     (if toLowerCase s \<in> set COMPLETED_STATUSES
      then Some \<lparr>sla_class = ''closed'', sla_text = ''Closed''\<rparr>
      else (case spec_threshold th s of
              None \<Rightarrow> None
            | Some t \<Rightarrow>
                (case parseTimeInStatus (JString txt) of
                   Inl err \<Rightarrow> None
                 | Inr days \<Rightarrow>
                     if of_int t \<le> days
                     then Some \<lparr>sla_class = ''at-risk'', sla_text = ''At Risk''\<rparr>
                     else Some \<lparr>sla_class = ''on-track'', sla_text = ''On Track''\<rparr>)))"

text \<open>
  The threshold the code compares against when the map has a \<open>default\<close> entry: the
  status's own entry unless it is missing or \<open>0\<close>.
\<close>

definition effective_threshold :: "thresholds \<Rightarrow> string option \<Rightarrow> int \<Rightarrow> int" where
  "effective_threshold th status dflt =
     (case th (status_key status) of
        Some n \<Rightarrow> if n = 0 then dflt else n
      | None \<Rightarrow> dflt)"

section \<open>Column resolver: \<open>findColumn\<close>\<close>

text \<open>\<open>h.toLowerCase().replace(/[\s_]/g, '')\<close>\<close>

definition normalize_header :: "string \<Rightarrow> string" where
  "normalize_header h = filter (\<lambda>c. \<not> is_space c \<and> c \<noteq> CHR ''_'') (toLowerCase h)"

text \<open>\<open>s.includes(t)\<close>: \<open>t\<close> occurs in \<open>s\<close> as a contiguous substring.\<close>

fun includes_str :: "string \<Rightarrow> string \<Rightarrow> bool" where
  "includes_str [] t = (t = [])"
| "includes_str (c # cs) t = (take (length t) (c # cs) = t \<or> includes_str cs t)"

text \<open>
  For each candidate name in turn: the first header whose normal form equals the
  candidate's, else the first header whose normal form contains it, else the next
  candidate. \<open>None\<close> is \<open>null\<close>.
\<close>

fun findColumn :: "string list \<Rightarrow> string list \<Rightarrow> string option" where
  "findColumn headers [] = None"
| "findColumn headers (name # possibleNames) =
     (let target = normalize_header name
      in case find (\<lambda>h. normalize_header h = target) headers of
           Some h \<Rightarrow> Some h
         | None \<Rightarrow>
             (case find (\<lambda>h. includes_str (normalize_header h) target) headers of
                Some h \<Rightarrow> Some h
              | None \<Rightarrow> findColumn headers possibleNames))"

section \<open>Hierarchy builder: data\<close>

text \<open>
  A record of the tokenised CSV is an object from header names to cells. Reading a
  property the object does not have gives \<open>undefined\<close> (\<open>None\<close>); reading \<open>record[col]\<close>
  with \<open>col = null\<close> reads the property named \<open>null\<close>.
\<close>

type_synonym csv_record = "string \<rightharpoonup> string"

definition cell :: "csv_record \<Rightarrow> string option \<Rightarrow> string option" where
  "cell r col = r (case col of None \<Rightarrow> ''null'' | Some h \<Rightarrow> h)"

text \<open>\<open>v || ''\<close> and \<open>v || d\<close> on a cell.\<close>

definition or_default :: "string \<Rightarrow> string option \<Rightarrow> string" where
  "or_default d v = (if truthy v then (case v of Some s \<Rightarrow> s | None \<Rightarrow> d) else d)"

record columns =
  keyCol :: "string option"
  idCol :: "string option"
  typeCol :: "string option"
  statusCol :: "string option"
  summaryCol :: "string option"
  sprintCol :: "string option"
  pointsCol :: "string option"
  epicLinkCol :: "string option"
  epicKeyCol :: "string option"
  parentCol :: "string option"
  customParentCol :: "string option"
  assigneeCol :: "string option"
  creatorCol :: "string option"
  componentCol :: "string option"
  projectCol :: "string option"

definition resolveColumns :: "string list \<Rightarrow> columns" where
  "resolveColumns headers =
     \<lparr>keyCol = findColumn headers [''Key'', ''Issue key''],
      idCol = findColumn headers [''ID'', ''Issue id''],
      typeCol = findColumn headers [''Issue Type'', ''IssueType''],
      statusCol = findColumn headers [''Status''],
      summaryCol = findColumn headers [''Summary''],
      sprintCol = findColumn headers [''Sprint''],
      pointsCol = findColumn headers [''Custom field (Story Points)'', ''Story Points''],
      epicLinkCol =
        findColumn headers [''Epic Link'', ''Custom field (Epic Link)'', ''Parent Epic''],
      epicKeyCol = findColumn headers [''Epic'', ''Epic Key''],
      parentCol = findColumn headers [''Parent'', ''Parent Link'', ''Parent Issue''],
      customParentCol =
        findColumn headers [''Custom field (Parent Link)'', ''Custom field (Epic)''],
      assigneeCol = findColumn headers [''Assignee''],
      creatorCol = findColumn headers [''Creator'', ''Created by''],
      componentCol = findColumn headers [''Component/s'', ''Components''],
      projectCol = findColumn headers [''Project'', ''Project key'']\<rparr>"

text \<open>
  A child issue. \<open>id\<close> and \<open>key\<close> both hold the issue key, so one field stands for the
  two. \<open>matchMethod\<close> is set by the balanced distribution only.
\<close>

record child_issue =
  childKey :: "string option"
  childName :: string
  childType :: "string option"
  childStatus :: string
  childSprint :: string
  childStoryPoints :: rat
  parentEpicId :: "string option"
  isCompleted :: bool
  matchMethod :: "string option"

text \<open>An epic; \<open>epicKey\<close> stands for its \<open>id\<close> and \<open>key\<close>, which hold the same issue key.\<close>

record epic =
  epicKey :: "string option"
  issueId :: "string option"
  epicName :: "string option"
  epicStatus :: "string option"
  epicSprint :: string
  storyPoints :: rat
  created :: "string option"
  assignee :: string
  creator :: string
  component :: string
  project :: string
  children :: "child_issue list"
  totalStoryPoints :: rat
  completedStoryPoints :: rat

text \<open>
  \<open>parseFloat(record[pointsCol] || 0) || 0\<close>. \<open>parseFloat\<close> is the platform's; it is a
  parameter, \<open>None\<close> standing for \<open>NaN\<close>. A falsy cell gives \<open>parseFloat(0) = 0\<close>, and
  \<open>|| 0\<close> turns \<open>NaN\<close> into \<open>0\<close>, so the result is never \<open>NaN\<close>.
\<close>

definition storyPointsOf :: "(string \<Rightarrow> rat option) \<Rightarrow> columns \<Rightarrow> csv_record \<Rightarrow> rat" where
  "storyPointsOf parseFloat cols r =
     (case cell r (pointsCol cols) of
        None \<Rightarrow> 0
      | Some s \<Rightarrow> if s = [] then 0 else (case parseFloat s of Some x \<Rightarrow> x | None \<Rightarrow> 0))"

text \<open>\<open>record[typeCol]?.toLowerCase()\<close>\<close>

definition issueTypeOf :: "columns \<Rightarrow> csv_record \<Rightarrow> string option" where
  "issueTypeOf cols r = map_option toLowerCase (cell r (typeCol cols))"

text \<open>\<open>col ? record[col] || '' : ''\<close>\<close>

definition optional_cell :: "csv_record \<Rightarrow> string option \<Rightarrow> string" where
  "optional_cell r col = (if truthy col then or_default [] (cell r col) else [])"

definition makeEpic :: "(string \<Rightarrow> rat option) \<Rightarrow> columns \<Rightarrow> csv_record \<Rightarrow> epic" where
  "makeEpic parseFloat cols r =
     \<lparr>epicKey = cell r (keyCol cols),
      issueId = cell r (idCol cols),
      epicName = cell r (summaryCol cols),
      epicStatus = cell r (statusCol cols),
      epicSprint = or_default [] (cell r (sprintCol cols)),
      storyPoints = storyPointsOf parseFloat cols r,
      created = r ''Created'',
      assignee = optional_cell r (assigneeCol cols),
      creator = optional_cell r (creatorCol cols),
      component = optional_cell r (componentCol cols),
      project = optional_cell r (projectCol cols),
      children = [],
      totalStoryPoints = storyPointsOf parseFloat cols r,
      completedStoryPoints =
        (if is_completed (cell r (statusCol cols)) then storyPointsOf parseFloat cols r else 0)\<rparr>"

section \<open>Hierarchy builder: pass 1\<close>

text \<open>
  The epic objects are shared by the \<open>epics\<close> array, the \<open>epicsByKey\<close> map and the project
  groups, and are mutated through all three. The array is the store: an epic's address
  is its position in \<open>epicList\<close>, and the map and the groups hold addresses. A later
  epic with the same key overwrites the map entry (both stay in the array).
  \<open>issuesByKey\<close>, \<open>issueTypes\<close> and \<open>linkingMethods\<close> are written and only logged, so they
  are left out.
\<close>

record pass1_state =
  issuesById :: "string option \<rightharpoonup> csv_record"
  epicList :: "epic list"
  epicsByKey :: "string option \<rightharpoonup> nat"

definition pass1_step ::
  "(string \<Rightarrow> rat option) \<Rightarrow> columns \<Rightarrow> pass1_state \<Rightarrow> csv_record \<Rightarrow> pass1_state" where
  "pass1_step parseFloat cols st r =
     (let issueKey = cell r (keyCol cols);
          issueId = cell r (idCol cols);
          st1 = (if truthy issueId then st\<lparr>issuesById := (issuesById st)(issueId \<mapsto> r)\<rparr> else st)
      in if issueTypeOf cols r = Some ''epic''
         then st1\<lparr>epicList := epicList st1 @ [makeEpic parseFloat cols r],
                  epicsByKey := (epicsByKey st1)(issueKey \<mapsto> length (epicList st1))\<rparr>
         else st1)"

definition pass1 ::
  "(string \<Rightarrow> rat option) \<Rightarrow> columns \<Rightarrow> csv_record list \<Rightarrow> pass1_state" where
  "pass1 parseFloat cols records =
     foldl (pass1_step parseFloat cols)
       \<lparr>issuesById = Map.empty, epicList = [], epicsByKey = Map.empty\<rparr> records"

section \<open>Hierarchy builder: pass 2\<close>

text \<open>
  The four linking methods. Each is an \<open>if (!parentEpicKey && ...)\<close> statement that may
  assign \<open>parentEpicKey\<close>; the methods run one after the other on the same variable.
  Methods 1, 2 and 4 assign the cell's value when \<open>epicsByKey\<close> has it.
\<close>

definition link_by_key ::
  "(string option \<rightharpoonup> nat) \<Rightarrow> csv_record \<Rightarrow> string option \<Rightarrow> string option \<Rightarrow> string option" where
  "link_by_key byKey r col parentEpicKey =
     (if \<not> truthy parentEpicKey \<and> truthy col \<and> truthy (cell r col)
      then (if byKey (cell r col) \<noteq> None then cell r col else parentEpicKey)
      else parentEpicKey)"

text \<open>
  Method 3 reads the parent cell as an issue ID, looks the record up in \<open>issuesById\<close>
  and, when that record's type is \<open>epic\<close>, assigns the record's key.
\<close>

definition link_by_parent ::
  "columns \<Rightarrow> (string option \<rightharpoonup> csv_record) \<Rightarrow> csv_record \<Rightarrow> string option \<Rightarrow> string option" where
  "link_by_parent cols byId r parentEpicKey =
     (if \<not> truthy parentEpicKey \<and> truthy (parentCol cols) \<and> truthy (cell r (parentCol cols))
      then (case byId (cell r (parentCol cols)) of
              None \<Rightarrow> parentEpicKey
            | Some parentRecord \<Rightarrow>
                if issueTypeOf cols parentRecord = Some ''epic''
                then cell parentRecord (keyCol cols)
                else parentEpicKey)
      else parentEpicKey)"

definition findParentEpicKey ::
  "columns \<Rightarrow> pass1_state \<Rightarrow> csv_record \<Rightarrow> string option" where
  "findParentEpicKey cols st r =
     (let p0 = None;
          p1 = link_by_key (epicsByKey st) r (epicLinkCol cols) p0;
          p2 = link_by_key (epicsByKey st) r (epicKeyCol cols) p1;
          p3 = link_by_parent cols (issuesById st) r p2;
          p4 = link_by_key (epicsByKey st) r (customParentCol cols) p3
      in p4)"

definition makeChild ::
  "(string \<Rightarrow> rat option) \<Rightarrow> columns \<Rightarrow> csv_record \<Rightarrow> string option \<Rightarrow> child_issue" where
  "makeChild parseFloat cols r parentEpicKey =
     \<lparr>childKey = cell r (keyCol cols),
      childName = or_default ''Unnamed Issue'' (cell r (summaryCol cols)),
      childType = issueTypeOf cols r,
      childStatus = or_default ''Unknown'' (cell r (statusCol cols)),
      childSprint = or_default [] (cell r (sprintCol cols)),
      childStoryPoints = storyPointsOf parseFloat cols r,
      parentEpicId = parentEpicKey,
      isCompleted = is_completed (cell r (statusCol cols)),
      matchMethod = None\<rparr>"

text \<open>
  \<open>parentEpic.children.push(childIssue)\<close> and the two sums. The guard
  \<open>!isNaN(childIssue.storyPoints)\<close> always holds, since the points are never \<open>NaN\<close>.
\<close>

definition addChild :: "epic \<Rightarrow> child_issue \<Rightarrow> epic" where
  "addChild e c =
     e\<lparr>children := children e @ [c],
       totalStoryPoints := totalStoryPoints e + childStoryPoints c,
       completedStoryPoints :=
         completedStoryPoints e + (if isCompleted c then childStoryPoints c else 0)\<rparr>"

text \<open>The same, on the epic at address \<open>i\<close> of the store.\<close>

definition attachChild :: "epic list \<Rightarrow> nat \<Rightarrow> child_issue \<Rightarrow> epic list" where
  "attachChild es i c = es[i := addChild (es ! i) c]"

text \<open>One record of the second \<open>forEach\<close>; the state is the store and \<open>linkedIssuesCount\<close>.\<close>

definition pass2_step ::
  "(string \<Rightarrow> rat option) \<Rightarrow> columns \<Rightarrow> pass1_state \<Rightarrow> epic list \<times> nat \<Rightarrow> csv_record
     \<Rightarrow> epic list \<times> nat" where
  "pass2_step parseFloat cols st acc r =
     (if issueTypeOf cols r = Some ''epic'' then acc
      else (let parentEpicKey = findParentEpicKey cols st r
            in if truthy parentEpicKey
               then (case epicsByKey st parentEpicKey of
                       None \<Rightarrow> acc
                     | Some i \<Rightarrow>
                         (attachChild (fst acc) i (makeChild parseFloat cols r parentEpicKey),
                          snd acc + 1))
               else acc))"

definition pass2 ::
  "(string \<Rightarrow> rat option) \<Rightarrow> columns \<Rightarrow> pass1_state \<Rightarrow> csv_record list \<Rightarrow> epic list \<times> nat" where
  "pass2 parseFloat cols st records =
     foldl (pass2_step parseFloat cols st) (epicList st, 0) records"

section \<open>Hierarchy builder: balanced distribution\<close>

text \<open>
  \<open>key?.match(/^([A-Z]+-)/)\<close>: the upper-case letters the key starts with, and the
  hyphen that must follow them.
\<close>

definition getProjectKey :: "string option \<Rightarrow> string option" where
  "getProjectKey key =
     (case key of
        None \<Rightarrow> None
      | Some k \<Rightarrow>
          if takeWhile is_upper k \<noteq> [] \<and> take 1 (dropWhile is_upper k) = ''-''
          then Some (takeWhile is_upper k @ ''-'')
          else None)"

text \<open>\<open>issueType && issueType !== 'epic' && record[keyCol]\<close>\<close>

definition nonEpicIssue :: "columns \<Rightarrow> csv_record \<Rightarrow> bool" where
  "nonEpicIssue cols r =
     (truthy (issueTypeOf cols r) \<and> issueTypeOf cols r \<noteq> Some ''epic''
      \<and> truthy (cell r (keyCol cols)))"

text \<open>
  A sort with a comparison function: \<open>Array.prototype.sort\<close> is stable, and with a
  consistent comparison its result is the stable sorted arrangement, which insertion
  from the left computes. \<open>localeCompare\<close> is the platform's collation and a parameter
  of the model.
\<close>

fun insert_cmp :: "('a \<Rightarrow> 'a \<Rightarrow> int) \<Rightarrow> 'a \<Rightarrow> 'a list \<Rightarrow> 'a list" where
  "insert_cmp cmp x [] = [x]"
| "insert_cmp cmp x (y # ys) =
     (if cmp x y < 0 then x # y # ys else y # insert_cmp cmp x ys)"

definition sort_cmp :: "('a \<Rightarrow> 'a \<Rightarrow> int) \<Rightarrow> 'a list \<Rightarrow> 'a list" where
  "sort_cmp cmp xs = foldl (\<lambda>acc x. insert_cmp cmp x acc) [] xs"

text \<open>
  \<open>epicsByProject\<close>: for each project key the epics whose key starts with it, in the
  order of the \<open>epics\<close> array. A group entry is an epic's address together with its
  key, which the sort compares. A project without epics has the empty group.
\<close>

definition group_epic ::
  "(string \<Rightarrow> (string \<times> nat) list) \<Rightarrow> nat \<times> epic \<Rightarrow> (string \<Rightarrow> (string \<times> nat) list)" where
  "group_epic groups ie =
     (case epicKey (snd ie) of
        None \<Rightarrow> groups
      | Some k \<Rightarrow>
          (case getProjectKey (Some k) of
             None \<Rightarrow> groups
           | Some projectKey \<Rightarrow> groups(projectKey := groups projectKey @ [(k, fst ie)])))"

definition epicsByProject ::
  "(string \<Rightarrow> string \<Rightarrow> int) \<Rightarrow> epic list \<Rightarrow> string \<Rightarrow> (string \<times> nat) list" where
  "epicsByProject localeCompare es projectKey =
     sort_cmp (\<lambda>a b. localeCompare (fst a) (fst b))
       (foldl group_epic (\<lambda>_. []) (enumerate 0 es) projectKey)"

text \<open>
  \<open>group.reduce((minEpic, epic) => epic.children.length < minEpic.children.length ? epic
  : minEpic, group[0])\<close>, the child counts read from the store.
\<close>

definition fewer_children :: "epic list \<Rightarrow> string \<times> nat \<Rightarrow> string \<times> nat \<Rightarrow> string \<times> nat" where
  "fewer_children es minEpic e =
     (if length (children (es ! snd e)) < length (children (es ! snd minEpic)) then e
      else minEpic)"

definition targetEpic :: "epic list \<Rightarrow> string \<times> nat \<Rightarrow> (string \<times> nat) list \<Rightarrow> string \<times> nat" where
  "targetEpic es first members = foldl (fewer_children es) first members"

definition makeDistributedChild ::
  "(string \<Rightarrow> rat option) \<Rightarrow> columns \<Rightarrow> csv_record \<Rightarrow> string \<Rightarrow> child_issue" where
  "makeDistributedChild parseFloat cols r targetKey =
     \<lparr>childKey = cell r (keyCol cols),
      childName = or_default ''Unnamed Issue'' (cell r (summaryCol cols)),
      childType = Some (or_default ''unknown'' (issueTypeOf cols r)),
      childStatus = or_default ''Unknown'' (cell r (statusCol cols)),
      childSprint = or_default [] (cell r (sprintCol cols)),
      childStoryPoints = storyPointsOf parseFloat cols r,
      parentEpicId = Some targetKey,
      isCompleted = is_completed (cell r (statusCol cols)),
      matchMethod = Some ''balanced-distribution''\<rparr>"

text \<open>One record of \<open>nonEpicIssues.forEach\<close>. \<open>distributedCount\<close> is only logged.\<close>

definition distribute_step ::
  "(string \<Rightarrow> rat option) \<Rightarrow> columns \<Rightarrow> (string \<Rightarrow> (string \<times> nat) list) \<Rightarrow> epic list
     \<Rightarrow> csv_record \<Rightarrow> epic list" where
  "distribute_step parseFloat cols groups es r =
     (case getProjectKey (cell r (keyCol cols)) of
        None \<Rightarrow> es
      | Some projectKey \<Rightarrow>
          (case groups projectKey of
             [] \<Rightarrow> es
           | first # rest \<Rightarrow>
               (let target = targetEpic es first (first # rest)
                in attachChild es (snd target)
                     (makeDistributedChild parseFloat cols r (fst target)))))"

definition balancedDistribution ::
  "(string \<Rightarrow> string \<Rightarrow> int) \<Rightarrow> (string \<Rightarrow> rat option) \<Rightarrow> columns \<Rightarrow> csv_record list
     \<Rightarrow> epic list \<Rightarrow> epic list" where
  "balancedDistribution localeCompare parseFloat cols records es =
     foldl (distribute_step parseFloat cols (epicsByProject localeCompare es)) es
       (filter (nonEpicIssue cols) records)"

section \<open>Hierarchy builder: \<open>processMainCSV\<close>\<close>

text \<open>An argument that should be an array: the array, or some other value.\<close>

datatype 'a js_array = NotArray js_value | Array "'a list"

record csv_data =
  headers :: "string list"
  records :: "csv_record js_array"

record hierarchy =
  epics :: "epic list"
  childIssues :: "child_issue list"

text \<open>
  \<open>epics.sort((a, b) => a.id.localeCompare(b.id))\<close>. With fewer than two epics the
  comparison is never called. \<open>a.id.localeCompare\<close> raises a \<open>TypeError\<close> when \<open>a.id\<close> is
  \<open>undefined\<close>; which pairs a sort compares is left to the engine, so when only some of
  the ids are \<open>undefined\<close> the outcome depends on the engine, and the model takes the
  error there.
\<close>

definition compare_ids :: "(string \<Rightarrow> string \<Rightarrow> int) \<Rightarrow> epic \<Rightarrow> epic \<Rightarrow> int" where
  "compare_ids localeCompare a b =
     (case epicKey a of
        None \<Rightarrow> 0
      | Some x \<Rightarrow> (case epicKey b of None \<Rightarrow> 0 | Some y \<Rightarrow> localeCompare x y))"

definition sortEpicsById :: "(string \<Rightarrow> string \<Rightarrow> int) \<Rightarrow> epic list \<Rightarrow> js_error + epic list" where
  "sortEpicsById localeCompare es =
     (if length es < 2 then Inr es
      else if list_all (\<lambda>e. epicKey e \<noteq> None) es
      then Inr (sort_cmp (compare_ids localeCompare) es)
      else Inl (TypeError ''Cannot read properties of undefined (reading localeCompare)''))"

text \<open>
  The two passes, the fallback and the result. \<open>linkedIssuesCount < records.length * 0.1\<close>
  is the comparison \<open>10 * linkedIssuesCount < records.length\<close>: the product with the double
  \<open>0.1\<close> is exact on multiples of ten and never crosses an integer otherwise.
\<close>

definition linkedEpics ::
  "(string \<Rightarrow> rat option) \<Rightarrow> columns \<Rightarrow> csv_record list \<Rightarrow> epic list" where
  "linkedEpics parseFloat cols rs = fst (pass2 parseFloat cols (pass1 parseFloat cols rs) rs)"

definition linkedIssuesCount ::
  "(string \<Rightarrow> rat option) \<Rightarrow> columns \<Rightarrow> csv_record list \<Rightarrow> nat" where
  "linkedIssuesCount parseFloat cols rs = snd (pass2 parseFloat cols (pass1 parseFloat cols rs) rs)"

definition distributedEpics ::
  "(string \<Rightarrow> string \<Rightarrow> int) \<Rightarrow> (string \<Rightarrow> rat option) \<Rightarrow> columns \<Rightarrow> csv_record list
     \<Rightarrow> epic list" where
  "distributedEpics localeCompare parseFloat cols rs =
     (if 10 * linkedIssuesCount parseFloat cols rs < length rs
      then balancedDistribution localeCompare parseFloat cols rs (linkedEpics parseFloat cols rs)
      else linkedEpics parseFloat cols rs)"

definition buildHierarchy ::
  "(string \<Rightarrow> string \<Rightarrow> int) \<Rightarrow> (string \<Rightarrow> rat option) \<Rightarrow> columns \<Rightarrow> csv_record list
     \<Rightarrow> js_error + hierarchy" where
  "buildHierarchy localeCompare parseFloat cols rs =
     (case sortEpicsById localeCompare (distributedEpics localeCompare parseFloat cols rs) of
        Inl err \<Rightarrow> Inl err
      | Inr ordered \<Rightarrow> Inr \<lparr>epics = ordered, childIssues = concat (map children ordered)\<rparr>)"

text \<open>
  The body of the \<open>try\<close> block. When \<open>records\<close> is no array, \<open>records.length\<close> (on
  \<open>null\<close> and \<open>undefined\<close>) or \<open>records.forEach\<close> raises a \<open>TypeError\<close>. The texts of
  the engine's messages are stand-ins.
\<close>

definition processMainCSV_try ::
  "(string \<Rightarrow> string \<Rightarrow> int) \<Rightarrow> (string \<Rightarrow> rat option) \<Rightarrow> csv_data \<Rightarrow> js_error + hierarchy" where
  "processMainCSV_try localeCompare parseFloat data =
     (case records data of
        NotArray v \<Rightarrow>
          Inl (TypeError
                 (if v = JUndefined \<or> v = JNull
                  then ''Cannot read properties of undefined (reading length)''
                  else ''records.forEach is not a function''))
      | Array rs \<Rightarrow> buildHierarchy localeCompare parseFloat (resolveColumns (headers data)) rs)"

definition processMainCSV ::
  "(string \<Rightarrow> string \<Rightarrow> int) \<Rightarrow> (string \<Rightarrow> rat option) \<Rightarrow> csv_data \<Rightarrow> js_error + hierarchy" where
  "processMainCSV localeCompare parseFloat data =
     (case processMainCSV_try localeCompare parseFloat data of
        Inr result \<Rightarrow> Inr result
      | Inl err \<Rightarrow> Inl (Error (''Failed to process main CSV data: '' @ message err)))"

section \<open>Time/SLA engine: \<open>mergeEpicData\<close>\<close>

text \<open>
  The time data of one epic: status columns and their cells, in the order of
  \<open>Object.keys\<close>. \<open>cycleTime\<close> is the \<open>-\<close> sentinel or a number of days; its rendering
  with \<open>toFixed(1)\<close> is a matter of floating point and not modelled.
\<close>

type_synonym time_data = "(string \<times> string) list"

datatype cycle_time = NoCycleTime | CycleDays rat

record merged_epic =
  base :: epic
  timeInStatus :: string
  cycleTime :: cycle_time
  slaStatus :: sla_status

definition and_then :: "js_error + 'a \<Rightarrow> ('a \<Rightarrow> js_error + 'b) \<Rightarrow> js_error + 'b" where
  "and_then x f = (case x of Inl err \<Rightarrow> Inl err | Inr v \<Rightarrow> f v)"

text \<open>\<open>s.toLowerCase().replace(/[\s_-]+/g, '')\<close>\<close>

definition normalize_status :: "string \<Rightarrow> string" where
  "normalize_status s =
     filter (\<lambda>c. \<not> is_space c \<and> c \<noteq> CHR ''_'' \<and> c \<noteq> CHR ''-'') (toLowerCase s)"

text \<open>
  \<open>Object.keys(timeData).find(key => key && norm(key) === norm(epic.status))\<close>. On an empty
  key the callback stops at \<open>key &&\<close>; on any other key it evaluates
  \<open>epic.status.toLowerCase()\<close>, which raises when the status is \<open>undefined\<close>.
\<close>

fun find_statusKey :: "string list \<Rightarrow> string option \<Rightarrow> js_error + string option" where
  "find_statusKey [] status = Inr None"
| "find_statusKey (k # ks) status =
     (if k = [] then find_statusKey ks status
      else (case status of
              None \<Rightarrow> Inl (TypeError ''Cannot read properties of undefined (reading toLowerCase)'')
            | Some s \<Rightarrow>
                if normalize_status k = normalize_status s then Inr (Some k)
                else find_statusKey ks status))"

text \<open>The body of the inner \<open>try\<close> block, for one epic.\<close>

definition mergeEpic_try ::
  "thresholds \<Rightarrow> (string option \<rightharpoonup> time_data) \<Rightarrow> epic \<Rightarrow> js_error + merged_epic" where
  "mergeEpic_try thresholds timeMap e =
     (let timeData = (case timeMap (epicKey e) of Some td \<Rightarrow> td | None \<Rightarrow> [])
      in and_then
           (if timeData \<noteq> [] then find_statusKey (map fst timeData) (epicStatus e) else Inr None)
           (\<lambda>statusKey.
              let found = (case statusKey of Some k \<Rightarrow> map_of timeData k | None \<Rightarrow> None);
                  timeInStatus = (if truthy statusKey \<and> truthy found then or_default ''-'' found
                                  else ''-'')
              in and_then
                   (parseTimeInStatus (JString (or_default [] (map_of timeData ''In Progress''))))
                   (\<lambda>inProgress.
                      and_then
                        (parseTimeInStatus
                           (JString (or_default [] (map_of timeData ''Code Review''))))
                        (\<lambda>codeReview.
                           let days = inProgress + codeReview
                           in and_then
                                (calculateSLAStatus thresholds (epicStatus e)
                                   (JString timeInStatus))
                                (\<lambda>status.
                                   Inr \<lparr>base = e, timeInStatus = timeInStatus,
                                        cycleTime =
                                          (if 0 < days then CycleDays days else NoCycleTime),
                                        slaStatus = status\<rparr>)))))"

text \<open>The \<open>catch\<close> of the inner block: the epic with the safe defaults.\<close>

definition safeDefaults :: "epic \<Rightarrow> merged_epic" where
  "safeDefaults e =
     \<lparr>base = e, timeInStatus = ''-'', cycleTime = NoCycleTime,
      slaStatus = \<lparr>sla_class = ''on-track'', sla_text = ''Unknown''\<rparr>\<rparr>"

definition mergeEpic ::
  "thresholds \<Rightarrow> (string option \<rightharpoonup> time_data) \<Rightarrow> epic \<Rightarrow> merged_epic" where
  "mergeEpic thresholds timeMap e =
     (case mergeEpic_try thresholds timeMap e of
        Inr merged \<Rightarrow> merged
      | Inl err \<Rightarrow> safeDefaults e)"

text \<open>
  \<open>mergeEpicData\<close>: the guards on the two arguments, then \<open>epics.map\<close>. A missing time map
  (\<open>null\<close> or \<open>undefined\<close>) is \<open>None\<close>. Nothing outside the inner block raises on these
  arguments, so the outer \<open>catch\<close> is never entered.
\<close>

definition mergeEpicData ::
  "thresholds \<Rightarrow> epic js_array \<Rightarrow> (string option \<rightharpoonup> time_data) option
     \<Rightarrow> js_error + merged_epic list" where
  "mergeEpicData thresholds epicsArg timeMapArg =
     (case epicsArg of
        NotArray v \<Rightarrow> Inr []
      | Array es \<Rightarrow>
          (let timeMap = (case timeMapArg of None \<Rightarrow> Map.empty | Some m \<Rightarrow> m)
           in Inr (map (mergeEpic thresholds timeMap) es)))"

section \<open>Metrics aggregator: \<open>calculateMetrics\<close>\<close>

text \<open>
  The per-sprint and overall sums. The averages of the cycle time and the one-decimal
  renderings (\<open>toFixed(1)\<close>) are floating-point figures and are left out; \<open>realization\<close>
  and \<open>atRiskPercentage\<close> are kept as exact values.
\<close>

record sprint_rollup =
  committed :: rat
  completed :: rat
  sprintEpics :: "merged_epic list"

record overall_metrics =
  totalEpics :: nat
  totalCommitted :: rat
  totalCompleted :: rat
  realization :: rat
  atRiskCount :: nat
  atRiskPercentage :: rat

record metrics =
  overall :: overall_metrics
  sprintData :: "(string \<times> sprint_rollup) list"

record metrics_state =
  sprints :: "(string \<times> sprint_rollup) list"
  sumCommitted :: rat
  sumCompleted :: rat
  countAtRisk :: nat

text \<open>
  \<open>sprints\<close> is a plain object indexed by the sprint name. A name that
  \<open>Object.prototype\<close> defines reads as that inherited value, which is truthy, so no
  rollup is created for it, and \<open>sprints[sprint].epics.push\<close> raises a \<open>TypeError\<close>.
\<close>

definition object_prototype_names :: "string list" where
  "object_prototype_names =
     [''constructor'', ''__defineGetter__'', ''__defineSetter__'', ''hasOwnProperty'',
      ''__lookupGetter__'', ''__lookupSetter__'', ''isPrototypeOf'', ''propertyIsEnumerable'',
      ''toString'', ''valueOf'', ''__proto__'', ''toLocaleString'']"

text \<open>Updating the rollup of a sprint in place, or appending a new one.\<close>

fun update_sprint ::
  "string \<Rightarrow> (sprint_rollup \<Rightarrow> sprint_rollup) \<Rightarrow> (string \<times> sprint_rollup) list
     \<Rightarrow> (string \<times> sprint_rollup) list" where
  "update_sprint name f [] = [(name, f \<lparr>committed = 0, completed = 0, sprintEpics = []\<rparr>)]"
| "update_sprint name f ((n, d) # rest) =
     (if n = name then (n, f d) # rest else (n, d) # update_sprint name f rest)"

definition metrics_step :: "metrics_state \<Rightarrow> merged_epic \<Rightarrow> js_error + metrics_state" where
  "metrics_step st e =
     (let sprint = (if epicSprint (base e) = [] then ''No Sprint'' else epicSprint (base e));
          committedPoints = totalStoryPoints (base e);
          completedPoints = completedStoryPoints (base e)
      in if sprint \<in> set object_prototype_names
         then Inl (TypeError ''Cannot read properties of undefined (reading push)'')
         else Inr \<lparr>sprints =
                      update_sprint sprint
                        (\<lambda>d. \<lparr>committed = committed d + committedPoints,
                               completed = completed d + completedPoints,
                               sprintEpics = sprintEpics d @ [e]\<rparr>)
                        (sprints st),
                    sumCommitted = sumCommitted st + committedPoints,
                    sumCompleted = sumCompleted st + completedPoints,
                    countAtRisk =
                      (if sla_class (slaStatus e) = ''at-risk'' then countAtRisk st + 1
                       else countAtRisk st)\<rparr>)"

fun metrics_loop :: "metrics_state \<Rightarrow> merged_epic list \<Rightarrow> js_error + metrics_state" where
  "metrics_loop st [] = Inr st"
| "metrics_loop st (e # es) = and_then (metrics_step st e) (\<lambda>st'. metrics_loop st' es)"

text \<open>The object both the guard and the \<open>catch\<close> return, up to \<open>totalEpics\<close>.\<close>

definition minimalMetrics :: "nat \<Rightarrow> metrics" where
  "minimalMetrics n =
     \<lparr>overall = \<lparr>totalEpics = n, totalCommitted = 0, totalCompleted = 0, realization = 0,
                 atRiskCount = 0, atRiskPercentage = 0\<rparr>,
      sprintData = []\<rparr>"

text \<open>The body of the \<open>try\<close> block.\<close>

definition calculateMetrics_try :: "merged_epic js_array \<Rightarrow> js_error + metrics" where
  "calculateMetrics_try epicsArg =
     (case epicsArg of
        NotArray v \<Rightarrow> Inr (minimalMetrics 0)
      | Array es \<Rightarrow>
          and_then
            (metrics_loop \<lparr>sprints = [], sumCommitted = 0, sumCompleted = 0, countAtRisk = 0\<rparr> es)
            (\<lambda>st.
               Inr \<lparr>overall =
                      \<lparr>totalEpics = length es,
                       totalCommitted = sumCommitted st,
                       totalCompleted = sumCompleted st,
                       realization =
                         (if 0 < sumCommitted st then sumCompleted st / sumCommitted st * 100
                          else 0),
                       atRiskCount = countAtRisk st,
                       atRiskPercentage =
                         (if 0 < length es then of_nat (countAtRisk st) / of_nat (length es) * 100
                          else 0)\<rparr>,
                    sprintData = sprints st\<rparr>))"

text \<open>
  The \<open>catch\<close> returns the minimal metrics with \<open>totalEpics = epics?.length || 0\<close>; it
  does not raise.
\<close>

definition calculateMetrics :: "merged_epic js_array \<Rightarrow> js_error + metrics" where
  "calculateMetrics epicsArg =
     (case calculateMetrics_try epicsArg of
        Inr result \<Rightarrow> Inr result
      | Inl err \<Rightarrow>
          Inr (minimalMetrics (case epicsArg of Array es \<Rightarrow> length es | NotArray v \<Rightarrow> 0)))"

text \<open>
  An instance of \<open>parseFloat\<close> and one of \<open>localeCompare\<close> for evaluating examples:
  \<open>parseFloat\<close> on strings of decimal digits, and the comparison of byte strings, with
  which the collation agrees on keys made of upper-case letters, digits and hyphens.
\<close>

definition parseFloat_digits :: "string \<Rightarrow> rat option" where
  "parseFloat_digits s =
     (if s \<noteq> [] \<and> list_all is_digit s then Some (of_nat (parseInt s)) else None)"

definition compare_bytes :: "string \<Rightarrow> string \<Rightarrow> int" where
  "compare_bytes a b = (if a < b then - 1 else if a = b then 0 else 1)"

section \<open>Notions used in the statements\<close>

text \<open>
  Some digit of the string is directly followed by the character \<open>u\<close>: the condition
  under which \<open>/(\d+)u/\<close> has a match, for a \<open>u\<close> that is no digit.
\<close>

fun digit_then :: "char \<Rightarrow> string \<Rightarrow> bool" where
  "digit_then u (a # b # cs) = ((is_digit a \<and> b = u) \<or> digit_then u (b # cs))"
| "digit_then u [a] = False"
| "digit_then u [] = False"


text \<open>
  The linkage as the specification words it: four strategies in a fixed order, the
  first that succeeds decides. A strategy succeeds when it yields the non-empty key of
  an epic to link to: strategies 1, 2 and 4 when the cell's value is a known epic key,
  strategy 3 when the cell's value is the ID of a record of type \<open>epic\<close>.
\<close>

definition strategy_key ::
  "(string option \<rightharpoonup> nat) \<Rightarrow> csv_record \<Rightarrow> string option \<Rightarrow> string option" where
  "strategy_key byKey r col =
     (if truthy col \<and> truthy (cell r col) \<and> byKey (cell r col) \<noteq> None then cell r col else None)"

definition strategy_parent ::
  "columns \<Rightarrow> (string option \<rightharpoonup> csv_record) \<Rightarrow> csv_record \<Rightarrow> string option" where
  "strategy_parent cols byId r =
     (if truthy (parentCol cols) \<and> truthy (cell r (parentCol cols))
      then (case byId (cell r (parentCol cols)) of
              None \<Rightarrow> None
            | Some parentRecord \<Rightarrow>
                if issueTypeOf cols parentRecord = Some ''epic''
                   \<and> truthy (cell parentRecord (keyCol cols))
                then cell parentRecord (keyCol cols)
                else None)
      else None)"

fun first_success :: "string option list \<Rightarrow> string option" where
  "first_success [] = None"
| "first_success (None # rest) = first_success rest"
| "first_success (Some k # rest) = Some k"

definition spec_linkage :: "columns \<Rightarrow> pass1_state \<Rightarrow> csv_record \<Rightarrow> string option" where
  "spec_linkage cols st r =
     first_success
       [strategy_key (epicsByKey st) r (epicLinkCol cols),
        strategy_key (epicsByKey st) r (epicKeyCol cols),
        strategy_parent cols (issuesById st) r,
        strategy_key (epicsByKey st) r (customParentCol cols)]"

text \<open>The key the code links under: \<open>parentEpicKey\<close> when it is truthy.\<close>

definition link_target :: "columns \<Rightarrow> pass1_state \<Rightarrow> csv_record \<Rightarrow> string option" where
  "link_target cols st r =
     (if truthy (findParentEpicKey cols st r) then findParentEpicKey cols st r else None)"

text \<open>A comparison function that orders its arguments consistently.\<close>

definition consistent_cmp :: "('a \<Rightarrow> 'a \<Rightarrow> int) \<Rightarrow> bool" where
  "consistent_cmp cmp =
     ((\<forall>x y z. cmp x y \<le> 0 \<and> cmp y z \<le> 0 \<longrightarrow> cmp x z \<le> 0)
      \<and> (\<forall>x y. cmp x y < 0 \<or> cmp y x \<le> 0))"

text \<open>The number of children attached in a store.\<close>

definition childCount :: "epic list \<Rightarrow> nat" where
  "childCount es = sum_list (map (\<lambda>e. length (children e)) es)"

text \<open>The number of children of the epic a group entry points to.\<close>

definition load :: "epic list \<Rightarrow> string \<times> nat \<Rightarrow> nat" where
  "load es entry = length (children (es ! snd entry))"

text \<open>The entry of an epic in the group of a project, if it belongs there.\<close>

definition project_entry :: "string \<Rightarrow> nat \<times> epic \<Rightarrow> (string \<times> nat) option" where
  "project_entry projectKey ie =
     (case epicKey (snd ie) of
        None \<Rightarrow> None
      | Some k \<Rightarrow> if getProjectKey (Some k) = Some projectKey then Some (k, fst ie) else None)"

text \<open>
  A record the balanced distribution attaches: it passes the filter and its key's
  project prefix is that of at least one epic key.
\<close>

definition distributable ::
  "(string \<Rightarrow> string \<Rightarrow> int) \<Rightarrow> columns \<Rightarrow> epic list \<Rightarrow> csv_record \<Rightarrow> bool" where
  "distributable localeCompare cols es r =
     (nonEpicIssue cols r
      \<and> (case getProjectKey (cell r (keyCol cols)) of
            None \<Rightarrow> False
          | Some projectKey \<Rightarrow> epicsByProject localeCompare es projectKey \<noteq> []))"

text \<open>The key of the record has a project prefix, and the project has epics.\<close>

definition has_group :: "columns \<Rightarrow> (string \<Rightarrow> (string \<times> nat) list) \<Rightarrow> csv_record \<Rightarrow> bool" where
  "has_group cols groups r =
     (case getProjectKey (cell r (keyCol cols)) of
        None \<Rightarrow> False
      | Some projectKey \<Rightarrow> groups projectKey \<noteq> [])"

text \<open>The time map that \<open>mergeEpicData\<close> works with.\<close>

definition time_map_of ::
  "(string option \<rightharpoonup> time_data) option \<Rightarrow> (string option \<rightharpoonup> time_data)" where
  "time_map_of timeMapArg = (case timeMapArg of None \<Rightarrow> Map.empty | Some m \<Rightarrow> m)"

text \<open>The number of epics the \<open>catch\<close> of \<open>calculateMetrics\<close> reports.\<close>

definition epics_length :: "'a js_array \<Rightarrow> nat" where
  "epics_length epicsArg = (case epicsArg of Array es \<Rightarrow> length es | NotArray v \<Rightarrow> 0)"

text \<open>
  Every address in \<open>epicsByKey\<close> is an address of the store, and the epic there has the
  key it is filed under.
\<close>

definition addresses_ok :: "pass1_state \<Rightarrow> bool" where
  "addresses_ok st =
     (\<forall>k i. epicsByKey st k = Some i \<longrightarrow> i < length (epicList st) \<and> epicKey (epicList st ! i) = k)"

text \<open>
  From one store to a later one: the same epics at the same addresses, with the same
  keys, and no child removed.
\<close>

definition grows :: "epic list \<Rightarrow> epic list \<Rightarrow> bool" where
  "grows es es' =
     (length es' = length es
      \<and> (\<forall>i<length es. epicKey (es' ! i) = epicKey (es ! i)
            \<and> set (children (es ! i)) \<subseteq> set (children (es' ! i))))"

text \<open>The two invariants of the story points of an epic.\<close>

definition points_ok :: "epic \<Rightarrow> bool" where
  "points_ok e =
     (storyPoints e \<le> totalStoryPoints e \<and> completedStoryPoints e \<le> totalStoryPoints e)"

section \<open>Example inputs\<close>

text \<open>
  A small export: two epics and a story whose Epic Link names the first epic and whose
  Parent names the ID of the second.
\<close>

definition link_headers :: "string list" where
  "link_headers =
     [''Issue key'', ''Issue id'', ''Issue Type'', ''Status'', ''Summary'', ''Story Points'',
      ''Epic Link'', ''Parent'']"

definition link_columns :: columns where
  "link_columns =
     \<lparr>keyCol = Some ''Issue key'', idCol = Some ''Issue id'', typeCol = Some ''Issue Type'',
      statusCol = Some ''Status'', summaryCol = Some ''Summary'', sprintCol = None,
      pointsCol = Some ''Story Points'', epicLinkCol = Some ''Epic Link'',
      epicKeyCol = Some ''Epic Link'', parentCol = Some ''Parent'', customParentCol = None,
      assigneeCol = None, creatorCol = None, componentCol = None, projectCol = None\<rparr>"

definition link_row :: "string list \<Rightarrow> csv_record" where
  "link_row cells = map_of (zip link_headers cells)"

definition first_epic_row :: csv_record where
  "first_epic_row =
     link_row [''A-1'', ''101'', ''Epic'', ''In Progress'', ''First'', ''5'', '''', '''']"

definition second_epic_row :: csv_record where
  "second_epic_row = link_row [''A-2'', ''102'', ''Epic'', ''Done'', ''Second'', ''2'', '''', '''']"

definition story_row :: csv_record where
  "story_row = link_row [''A-3'', ''103'', ''Story'', ''Done'', ''Third'', ''3'', ''A-1'', ''102'']"

definition link_rows :: "csv_record list" where
  "link_rows = [first_epic_row, second_epic_row, story_row]"

text \<open>
  A larger export in which one record of eleven is linked: the story names the second
  epic in its Epic Link, and eight rows are blank.
\<close>

definition linked_story_row :: csv_record where
  "linked_story_row =
     link_row [''A-3'', ''103'', ''Story'', ''Done'', ''Third'', ''3'', ''A-2'', '''']"

definition blank_row :: csv_record where
  "blank_row = link_row ['''', '''', '''', '''', '''', '''', '''', '''']"

definition spread_rows :: "csv_record list" where
  "spread_rows = [first_epic_row, second_epic_row, linked_story_row] @ replicate 8 blank_row"

text \<open>An export without a key column, with two epics.\<close>

definition keyless_rows :: "csv_record list" where
  "keyless_rows = [map_of [(''Issue Type'', ''Epic'')], map_of [(''Issue Type'', ''Epic'')]]"

text \<open>The entities these exports produce.\<close>

definition example_child :: "string \<Rightarrow> string option \<Rightarrow> child_issue" where
  "example_child parent method =
     \<lparr>childKey = Some ''A-3'', childName = ''Third'', childType = Some ''story'',
      childStatus = ''Done'', childSprint = [], childStoryPoints = 3,
      parentEpicId = Some parent, isCompleted = True, matchMethod = method\<rparr>"

definition example_epic ::
  "string \<Rightarrow> string \<Rightarrow> string \<Rightarrow> string option \<Rightarrow> rat \<Rightarrow> child_issue list \<Rightarrow> rat \<Rightarrow> rat \<Rightarrow> epic" where
  "example_epic k i n s own cs sumAll sumDone =
     \<lparr>epicKey = Some k, issueId = Some i, epicName = Some n, epicStatus = s,
      epicSprint = [], storyPoints = own, created = None, assignee = [], creator = [],
      component = [], project = [], children = cs, totalStoryPoints = sumAll,
      completedStoryPoints = sumDone\<rparr>"

definition link_result :: hierarchy where
  "link_result =
     \<lparr>epics =
        [example_epic ''A-1'' ''101'' ''First'' (Some ''In Progress'') 5
           [example_child ''A-1'' None] 8 3,
         example_epic ''A-2'' ''102'' ''Second'' (Some ''Done'') 2 [] 2 2],
      childIssues = [example_child ''A-1'' None]\<rparr>"

definition spread_linked :: "epic list" where
  "spread_linked =
     [example_epic ''A-1'' ''101'' ''First'' (Some ''In Progress'') 5 [] 5 0,
      example_epic ''A-2'' ''102'' ''Second'' (Some ''Done'') 2 [example_child ''A-2'' None] 5 5]"

definition spread_result :: hierarchy where
  "spread_result =
     \<lparr>epics =
        [example_epic ''A-1'' ''101'' ''First'' (Some ''In Progress'') 5
           [example_child ''A-1'' (Some ''balanced-distribution'')] 8 3,
         example_epic ''A-2'' ''102'' ''Second'' (Some ''Done'') 2
           [example_child ''A-2'' None] 5 5],
      childIssues =
        [example_child ''A-1'' (Some ''balanced-distribution''), example_child ''A-2'' None]\<rparr>"

text \<open>The keys of the epics of an outcome, each with its children's keys and methods.\<close>

definition attachments ::
  "js_error + hierarchy \<Rightarrow> (string option \<times> (string option \<times> string option) list) list" where
  "attachments outcome =
     (case outcome of
        Inl err \<Rightarrow> []
      | Inr result \<Rightarrow>
          map (\<lambda>e. (epicKey e, map (\<lambda>c. (childKey c, matchMethod c)) (children e)))
            (epics result))"

text \<open>
  Epics for the merge: one whose status column was not resolved, one in progress, and
  their time data; and a merged epic whose sprint is named \<open>constructor\<close>.
\<close>

definition statusless_epic :: epic where
  "statusless_epic = example_epic ''B-1'' ''201'' ''Fourth'' None 1 [] 1 0"

definition progressing_epic :: epic where
  "progressing_epic = example_epic ''B-2'' ''202'' ''Fifth'' (Some ''In Progress'') 1 [] 1 0"

definition example_times :: "string option \<rightharpoonup> time_data" where
  "example_times =
     map_of [(Some ''B-1'', [(''In Progress'', ''3d'')]),
             (Some ''B-2'', [(''In Progress'', ''21d''), (''Code Review'', ''1d'')])]"

definition odd_sprint_epic :: merged_epic where
  "odd_sprint_epic = safeDefaults (progressing_epic\<lparr>epicSprint := ''constructor''\<rparr>)"

section \<open>Properties of the duration parser\<close>

subsection \<open>Rounding to a double\<close>

lemma bit_length_le_iff: "bit_length n \<le> k \<longleftrightarrow> n < 2 ^ k"
proof (induction n arbitrary: k rule: bit_length.induct)
  case 1
  then show ?case by simp
next
  case (2 n)
  show ?case
  proof (cases k)
    case 0
    then show ?thesis by simp
  next
    case (Suc j)
    have "bit_length (Suc n) \<le> Suc j \<longleftrightarrow> bit_length (Suc n div 2) \<le> j"
      by (simp only: bit_length.simps Suc_le_mono)
    also have "\<dots> \<longleftrightarrow> Suc n div 2 < 2 ^ j" by (rule "2.IH")
    also have "\<dots> \<longleftrightarrow> Suc n < 2 ^ Suc j" by (simp add: div_less_iff_less_mult mult.commute)
    finally show ?thesis unfolding Suc .
  qed
qed

lemma round_to_double_exact: "n < 2 ^ 53 \<Longrightarrow> round_to_double n = n"
  by (simp only: round_to_double_def bit_length_le_iff if_True)
















subsection \<open>The scanner\<close>




lemma digit_then_iff:
  "digit_then u s \<longleftrightarrow> (\<exists>pre a post. s = pre @ a # u # post \<and> is_digit a)"
proof (induction u s rule: digit_then.induct)
  case (1 u a b cs)
  show ?case
  proof
    assume "digit_then u (a # b # cs)"
    then consider "is_digit a" "b = u" | "digit_then u (b # cs)" by auto
    then show "\<exists>pre a' post. a # b # cs = pre @ a' # u # post \<and> is_digit a'"
    proof cases
      case 1
      then have "a # b # cs = [] @ a # u # cs \<and> is_digit a" by simp
      then show ?thesis by blast
    next
      case 2
      then obtain pre a' post where "b # cs = pre @ a' # u # post" "is_digit a'"
        using "1.IH" by blast
      then have "a # b # cs = (a # pre) @ a' # u # post \<and> is_digit a'" by simp
      then show ?thesis by blast
    qed
  next
    assume "\<exists>pre a' post. a # b # cs = pre @ a' # u # post \<and> is_digit a'"
    then obtain pre a' post where eq: "a # b # cs = pre @ a' # u # post" and d: "is_digit a'"
      by blast
    show "digit_then u (a # b # cs)"
    proof (cases pre)
      case Nil
      then show ?thesis using eq d by simp
    next
      case (Cons p pre')
      then have "b # cs = pre' @ a' # u # post" using eq by simp
      then have "digit_then u (b # cs)" using "1.IH" d by blast
      then show ?thesis by simp
    qed
  qed
next
  case (2 u a)
  show ?case
  proof
    assume "\<exists>pre a' post. [a] = pre @ a' # u # post \<and> is_digit a'"
    then obtain pre a' post where "[a] = pre @ a' # u # post" by blast
    then have "length [a] = length (pre @ a' # u # post)" by (rule arg_cong)
    then show "digit_then u [a]" by simp
  qed simp
next
  case (3 u)
  then show ?case by simp
qed








subsection \<open>The parser\<close>




text \<open>
  Claim C7. \<open>parseTimeInStatus\<close> returns a number on every value, never an error: \<open>0\<close> on
  a falsy value (\<open>null\<close>, \<open>undefined\<close>, the empty string), \<open>0\<close> on a string in which no
  pattern occurs, and \<open>0\<close> whenever the \<open>try\<close> block raises.
\<close>

theorem parseTimeInStatus_never_raises:
  "(\<exists>days. parseTimeInStatus v = Inr days)
   \<and> (falsy v \<longrightarrow> parseTimeInStatus v = Inr 0)
   \<and> (unparseable s \<longrightarrow> parseTimeInStatus (JString s) = Inr 0)
   \<and> (parseTimeInStatus_try v = Inl err \<longrightarrow> parseTimeInStatus v = Inr 0)"
  by (auto simp: parseTimeInStatus_def unparseable_def unit_count_def split: sum.splits)

text \<open>\<open>null\<close>, a text without a duration, and a number, on which the \<open>try\<close> block raises.\<close>

theorem parseTimeInStatus_never_raises_witness:
  "falsy JNull \<and> parseTimeInStatus JNull = Inr 0
   \<and> unparseable ''three weeks'' \<and> parseTimeInStatus (JString ''three weeks'') = Inr 0
   \<and> parseTimeInStatus_try (JNumber 5) = Inl (TypeError ''timeString.match is not a function'')
   \<and> parseTimeInStatus (JNumber 5) = Inr 0"
  using parseTimeInStatus_never_raises [of JNull "''three weeks''"]
    parseTimeInStatus_never_raises [of "JNumber 5" "''''" "TypeError ''timeString.match is not a function''"]
  by (simp add: unparseable_def is_digit_def)

section \<open>Properties of the SLA classification\<close>

lemma parseTimeInStatus_total: "\<exists>days. parseTimeInStatus v = Inr days"
  by (auto simp: parseTimeInStatus_def split: sum.splits)

text \<open>
  Claim C2, as the code has it. A completed status is \<open>closed\<close> whatever the elapsed time.
  Otherwise the days are compared with the threshold listed for the lower-cased status,
  or with the \<open>default\<close> entry when the status is unlisted or its listed threshold is
  \<open>0\<close>; days equal to the threshold are already at risk. (The statement leaves out a
  threshold map without \<open>default\<close> and the two status names that name an inherited
  property of the map.)
\<close>

theorem calculateSLAStatus_classification:
  "(is_completed status \<longrightarrow>
      calculateSLAStatus th status timeString = Inr \<lparr>sla_class = ''closed'', sla_text = ''Closed''\<rparr>)
   \<and> (\<not> is_completed status \<and> th ''default'' = Some dflt
        \<and> status_key status \<notin> {''constructor'', ''__proto__''}
        \<and> parseTimeInStatus timeString = Inr days \<longrightarrow>
      calculateSLAStatus th status timeString =
        Inr (if of_int (effective_threshold th status dflt) \<le> days
             then \<lparr>sla_class = ''at-risk'', sla_text = ''At Risk''\<rparr>
             else \<lparr>sla_class = ''on-track'', sla_text = ''On Track''\<rparr>))"
  by (auto simp: calculateSLAStatus_def get_property_def effective_threshold_def
      split: option.splits)

text \<open>\<open>2w 6d\<close> is exactly the 20 days allowed in progress: at risk.\<close>

theorem calculateSLAStatus_classification_witness:
  "is_completed (Some ''Signed Off'')
   \<and> calculateSLAStatus (getSLAThresholds None) (Some ''Signed Off'') (JString ''52w'')
       = Inr \<lparr>sla_class = ''closed'', sla_text = ''Closed''\<rparr>
   \<and> \<not> is_completed (Some ''In Progress'')
   \<and> getSLAThresholds None ''default'' = Some 30
   \<and> status_key (Some ''In Progress'') \<notin> {''constructor'', ''__proto__''}
   \<and> parseTimeInStatus (JString ''2w 6d'') = Inr 20
   \<and> calculateSLAStatus (getSLAThresholds None) (Some ''In Progress'') (JString ''2w 6d'')
       = Inr \<lparr>sla_class = ''at-risk'', sla_text = ''At Risk''\<rparr>"
  using calculateSLAStatus_classification
          [of "Some ''Signed Off''" "getSLAThresholds None" "JString ''52w''" 30 20]
        calculateSLAStatus_classification
          [of "Some ''In Progress''" "getSLAThresholds None" "JString ''2w 6d''" 30 20]
  by (simp add: is_completed_def COMPLETED_STATUSES_def getSLAThresholds_def status_key_def
      effective_threshold_def toLowerCase_def lower_char_def parseTimeInStatus_def
      unit_count_def parseInt_def round_to_double_exact decimal_value_def digit_value_def is_digit_def)

text \<open>
  Claim C2 as stated fails where a status is listed with threshold \<open>0\<close>: \<open>||\<close> treats the
  listed \<open>0\<close> as missing and compares with \<open>default\<close>, so five days in progress are on
  track, where the listed threshold makes them at risk.
\<close>

theorem calculateSLAStatus_counterexample:
  "spec_calculateSLAStatus (map_of [(''in progress'', 0), (''default'', 30)]) ''In Progress'' ''5d''
     = Some \<lparr>sla_class = ''at-risk'', sla_text = ''At Risk''\<rparr>
   \<and> calculateSLAStatus (map_of [(''in progress'', 0), (''default'', 30)]) (Some ''In Progress'')
        (JString ''5d'')
     = Inr \<lparr>sla_class = ''on-track'', sla_text = ''On Track''\<rparr>"
  by (simp add: spec_calculateSLAStatus_def spec_threshold_def calculateSLAStatus_def
      is_completed_def COMPLETED_STATUSES_def get_property_def status_key_def
      parseTimeInStatus_def toLowerCase_def lower_char_def unit_count_def parseInt_def
      round_to_double_exact decimal_value_def
      digit_value_def is_digit_def)

section \<open>Sorting and selecting\<close>

subsection \<open>The sort\<close>

lemma mset_insert_cmp: "mset (insert_cmp cmp x xs) = add_mset x (mset xs)"
  by (induction xs) auto

lemma mset_foldl_insert_cmp:
  "mset (foldl (\<lambda>acc x. insert_cmp cmp x acc) acc xs) = mset acc + mset xs"
  by (induction xs arbitrary: acc) (auto simp: mset_insert_cmp)

lemma mset_sort_cmp: "mset (sort_cmp cmp xs) = mset xs"
  by (simp add: sort_cmp_def mset_foldl_insert_cmp)

lemma set_sort_cmp: "set (sort_cmp cmp xs) = set xs"
  by (metis mset_sort_cmp set_mset_mset)

lemma length_sort_cmp: "length (sort_cmp cmp xs) = length xs"
  by (metis mset_sort_cmp size_mset)

lemma sorted_insert_cmp:
  assumes "consistent_cmp cmp" "sorted_wrt (\<lambda>a b. cmp a b \<le> 0) xs"
  shows "sorted_wrt (\<lambda>a b. cmp a b \<le> 0) (insert_cmp cmp x xs)"
  using assms(2)
proof (induction xs)
  case Nil
  then show ?case by simp
next
  case (Cons y ys)
  have tr: "\<And>a b c. cmp a b \<le> 0 \<Longrightarrow> cmp b c \<le> 0 \<Longrightarrow> cmp a c \<le> 0"
    using assms(1) unfolding consistent_cmp_def by blast
  have tot: "\<And>a b. \<not> cmp a b < 0 \<Longrightarrow> cmp b a \<le> 0"
    using assms(1) unfolding consistent_cmp_def by blast
  show ?case
  proof (cases "cmp x y < 0")
    case True
    then have "cmp x y \<le> 0" by simp
    then have "\<forall>e\<in>set ys. cmp x e \<le> 0" using Cons.prems tr by auto
    then show ?thesis using True Cons.prems \<open>cmp x y \<le> 0\<close> by simp
  next
    case False
    then have "cmp y x \<le> 0" by (rule tot)
    moreover have "set (insert_cmp cmp x ys) = insert x (set ys)"
      by (metis mset_insert_cmp set_mset_add_mset_insert set_mset_mset)
    ultimately show ?thesis using False Cons by auto
  qed
qed

lemma sorted_foldl_insert_cmp:
  "consistent_cmp cmp \<Longrightarrow> sorted_wrt (\<lambda>a b. cmp a b \<le> 0) acc \<Longrightarrow>
     sorted_wrt (\<lambda>a b. cmp a b \<le> 0) (foldl (\<lambda>acc x. insert_cmp cmp x acc) acc xs)"
  by (induction xs arbitrary: acc) (auto simp: sorted_insert_cmp)

lemma sorted_sort_cmp:
  "consistent_cmp cmp \<Longrightarrow> sorted_wrt (\<lambda>a b. cmp a b \<le> 0) (sort_cmp cmp xs)"
  by (simp add: sort_cmp_def sorted_foldl_insert_cmp)

lemma consistent_compare_bytes: "consistent_cmp compare_bytes"
  by (auto simp: consistent_cmp_def compare_bytes_def split: if_splits)

subsection \<open>Least loaded, first in the list\<close>

lemma foldl_min_first:
  fixes f :: "'a \<Rightarrow> nat"
  defines "step \<equiv> (\<lambda>m e. if f e < f m then e else m)"
  shows "(foldl step m xs = m \<and> (\<forall>e\<in>set xs. f m \<le> f e))
         \<or> (\<exists>pre post. xs = pre @ foldl step m xs # post \<and> f (foldl step m xs) < f m
              \<and> (\<forall>e\<in>set pre. f (foldl step m xs) < f e)
              \<and> (\<forall>e\<in>set post. f (foldl step m xs) \<le> f e))"
proof (induction xs arbitrary: m)
  case Nil
  then show ?case by simp
next
  case (Cons x xs)
  show ?case
  proof (cases "f x < f m")
    case True
    then have st: "foldl step m (x # xs) = foldl step x xs" by (simp add: step_def)
    from Cons.IH [of x] show ?thesis
    proof
      assume a: "foldl step x xs = x \<and> (\<forall>e\<in>set xs. f x \<le> f e)"
      then have "x # xs = [] @ foldl step m (x # xs) # xs" using st by simp
      then show ?thesis using a st True by (metis empty_iff empty_set)
    next
      assume "\<exists>pre post. xs = pre @ foldl step x xs # post \<and> f (foldl step x xs) < f x
              \<and> (\<forall>e\<in>set pre. f (foldl step x xs) < f e)
              \<and> (\<forall>e\<in>set post. f (foldl step x xs) \<le> f e)"
      then obtain pre post where d: "xs = pre @ foldl step x xs # post"
        "f (foldl step x xs) < f x" "\<forall>e\<in>set pre. f (foldl step x xs) < f e"
        "\<forall>e\<in>set post. f (foldl step x xs) \<le> f e" by blast
      have "x # xs = (x # pre) @ foldl step m (x # xs) # post" using d(1) st by simp
      moreover have "f (foldl step m (x # xs)) < f m" using d(2) True st by simp
      moreover have "\<forall>e\<in>set (x # pre). f (foldl step m (x # xs)) < f e" using d(2,3) st by simp
      moreover have "\<forall>e\<in>set post. f (foldl step m (x # xs)) \<le> f e" using d(4) st by simp
      ultimately show ?thesis by blast
    qed
  next
    case False
    then have st: "foldl step m (x # xs) = foldl step m xs" by (simp add: step_def)
    from Cons.IH [of m] show ?thesis
    proof
      assume "foldl step m xs = m \<and> (\<forall>e\<in>set xs. f m \<le> f e)"
      then show ?thesis using st False by simp
    next
      assume "\<exists>pre post. xs = pre @ foldl step m xs # post \<and> f (foldl step m xs) < f m
              \<and> (\<forall>e\<in>set pre. f (foldl step m xs) < f e)
              \<and> (\<forall>e\<in>set post. f (foldl step m xs) \<le> f e)"
      then obtain pre post where d: "xs = pre @ foldl step m xs # post"
        "f (foldl step m xs) < f m" "\<forall>e\<in>set pre. f (foldl step m xs) < f e"
        "\<forall>e\<in>set post. f (foldl step m xs) \<le> f e" by blast
      have "x # xs = (x # pre) @ foldl step m (x # xs) # post" using d(1) st by simp
      moreover have "f (foldl step m (x # xs)) < f m" using d(2) st by simp
      moreover have "\<forall>e\<in>set (x # pre). f (foldl step m (x # xs)) < f e"
        using d(2,3) st False by auto
      moreover have "\<forall>e\<in>set post. f (foldl step m (x # xs)) \<le> f e" using d(4) st by simp
      ultimately show ?thesis by blast
    qed
  qed
qed

section \<open>Properties of the hierarchy builder\<close>

subsection \<open>Folds\<close>

lemma foldl_invariant:
  "P a \<Longrightarrow> (\<And>b x. x \<in> set xs \<Longrightarrow> P b \<Longrightarrow> P (f b x)) \<Longrightarrow> P (foldl f a xs)"
  by (induction xs arbitrary: a) auto

subsection \<open>Linkage order\<close>

lemma link_by_key_strategy:
  "link_by_key byKey r col p =
     (if truthy p then p else (case strategy_key byKey r col of Some k \<Rightarrow> Some k | None \<Rightarrow> p))"
  by (auto simp: link_by_key_def strategy_key_def split: option.splits)

lemma strategy_key_truthy: "strategy_key byKey r col = Some k \<Longrightarrow> truthy (Some k)"
  by (auto simp: strategy_key_def split: if_splits)

lemma strategy_parent_truthy: "strategy_parent cols byId r = Some k \<Longrightarrow> truthy (Some k)"
  by (auto simp: strategy_parent_def split: if_splits option.splits)

lemma link_by_parent_strategy:
  "\<not> truthy p \<Longrightarrow>
     (case strategy_parent cols byId r of
        Some k \<Rightarrow> link_by_parent cols byId r p = Some k
      | None \<Rightarrow> \<not> truthy (link_by_parent cols byId r p))"
  by (auto simp: link_by_parent_def strategy_parent_def split: option.splits)

lemma link_by_parent_keep: "truthy p \<Longrightarrow> link_by_parent cols byId r p = p"
  by (simp add: link_by_parent_def)

lemma link_target_spec: "link_target cols st r = spec_linkage cols st r"
proof -
  let ?s1 = "strategy_key (epicsByKey st) r (epicLinkCol cols)"
  let ?s2 = "strategy_key (epicsByKey st) r (epicKeyCol cols)"
  let ?s3 = "strategy_parent cols (issuesById st) r"
  let ?s4 = "strategy_key (epicsByKey st) r (customParentCol cols)"
  define p1 where "p1 = link_by_key (epicsByKey st) r (epicLinkCol cols) None"
  define p2 where "p2 = link_by_key (epicsByKey st) r (epicKeyCol cols) p1"
  define p3 where "p3 = link_by_parent cols (issuesById st) r p2"
  define p4 where "p4 = link_by_key (epicsByKey st) r (customParentCol cols) p3"
  have f: "findParentEpicKey cols st r = p4"
    by (simp add: findParentEpicKey_def p1_def p2_def p3_def p4_def)
  have e1: "p1 = ?s1"
    by (simp add: p1_def link_by_key_strategy split: option.splits)
  have e2: "p2 = first_success [?s1, ?s2]"
    using strategy_key_truthy [of "epicsByKey st" r "epicLinkCol cols"]
    by (cases ?s1; cases ?s2) (simp_all add: p2_def e1 link_by_key_strategy)
  have t2: "p2 = None \<or> truthy p2"
    using strategy_key_truthy [of "epicsByKey st" r "epicLinkCol cols"]
      strategy_key_truthy [of "epicsByKey st" r "epicKeyCol cols"]
    unfolding e2 by (cases ?s1; cases ?s2) simp_all
  have e3: "(if truthy p3 then p3 else None) = first_success [?s1, ?s2, ?s3]"
  proof (cases "truthy p2")
    case True
    then have "p3 = p2" by (simp add: p3_def link_by_parent_keep)
    then show ?thesis using True e2 by (cases ?s1; cases ?s2) simp_all
  next
    case False
    then have n: "p2 = None" using t2 by blast
    then have s12: "?s1 = None" "?s2 = None" using e2 by (cases ?s1; cases ?s2; simp)+
    show ?thesis
      using link_by_parent_strategy [OF False, of cols "issuesById st" r]
        strategy_parent_truthy [of cols "issuesById st" r]
      by (cases ?s3) (simp_all add: s12 p3_def)
  qed
  have e4: "(if truthy p4 then p4 else None) = first_success [?s1, ?s2, ?s3, ?s4]"
  proof (cases "truthy p3")
    case True
    then have "p4 = p3" by (simp add: p4_def link_by_key_strategy)
    then show ?thesis using True e3 by (cases ?s1; cases ?s2; cases ?s3) simp_all
  next
    case False
    then have s: "first_success [?s1, ?s2, ?s3] = None" using e3 by simp
    then have s123: "?s1 = None" "?s2 = None" "?s3 = None"
      by (cases ?s1; cases ?s2; cases ?s3; simp)+
    show ?thesis
      using False strategy_key_truthy [of "epicsByKey st" r "customParentCol cols"]
      by (cases ?s4) (simp_all add: s123 p4_def link_by_key_strategy)
  qed
  show ?thesis unfolding link_target_def spec_linkage_def f using e4 .
qed

subsection \<open>Pass 1\<close>

lemma pass1_step_epicList:
  "epicList (pass1_step pf cols st r) =
     epicList st @ (if issueTypeOf cols r = Some ''epic'' then [makeEpic pf cols r] else [])"
  by (cases "truthy (cell r (idCol cols))") (simp_all add: pass1_step_def Let_def)

lemma pass1_step_epicsByKey:
  "epicsByKey (pass1_step pf cols st r) =
     (if issueTypeOf cols r = Some ''epic''
      then (epicsByKey st)(cell r (keyCol cols) \<mapsto> length (epicList st))
      else epicsByKey st)"
  by (cases "truthy (cell r (idCol cols))") (simp_all add: pass1_step_def Let_def)

lemma pass1_step_issuesById:
  "issuesById (pass1_step pf cols st r) =
     (if truthy (cell r (idCol cols)) then (issuesById st)(cell r (idCol cols) \<mapsto> r)
      else issuesById st)"
  by (cases "issueTypeOf cols r = Some ''epic''") (simp_all add: pass1_step_def Let_def)

lemma foldl_pass1_epicList:
  "epicList (foldl (pass1_step pf cols) st rs) =
     epicList st @ map (makeEpic pf cols) (filter (\<lambda>r. issueTypeOf cols r = Some ''epic'') rs)"
  by (induction rs arbitrary: st) (simp_all add: pass1_step_epicList)

lemma pass1_epicList:
  "epicList (pass1 pf cols rs) =
     map (makeEpic pf cols) (filter (\<lambda>r. issueTypeOf cols r = Some ''epic'') rs)"
  by (simp add: pass1_def foldl_pass1_epicList)

lemma pass1_step_addresses_ok:
  assumes "addresses_ok st"
  shows "addresses_ok (pass1_step pf cols st r)"
proof (cases "issueTypeOf cols r = Some ''epic''")
  case False
  then show ?thesis
    using assms by (simp add: pass1_step_epicsByKey pass1_step_epicList addresses_ok_def)
next
  case True
  have key: "epicKey (makeEpic pf cols r) = cell r (keyCol cols)" by (simp add: makeEpic_def)
  show ?thesis
    unfolding addresses_ok_def
  proof (intro allI impI)
    fix k i
    assume a: "epicsByKey (pass1_step pf cols st r) k = Some i"
    show "i < length (epicList (pass1_step pf cols st r))
          \<and> epicKey (epicList (pass1_step pf cols st r) ! i) = k"
    proof (cases "k = cell r (keyCol cols)")
      case True
      then have "i = length (epicList st)" using a \<open>issueTypeOf cols r = Some ''epic''\<close>
        by (simp add: pass1_step_epicsByKey)
      then show ?thesis using True key \<open>issueTypeOf cols r = Some ''epic''\<close>
        by (simp add: pass1_step_epicList)
    next
      case False
      then have "epicsByKey st k = Some i" using a \<open>issueTypeOf cols r = Some ''epic''\<close>
        by (simp add: pass1_step_epicsByKey)
      then have "i < length (epicList st) \<and> epicKey (epicList st ! i) = k"
        using assms unfolding addresses_ok_def by blast
      then show ?thesis by (simp add: pass1_step_epicList nth_append)
    qed
  qed
qed

lemma pass1_addresses_ok: "addresses_ok (pass1 pf cols rs)"
  unfolding pass1_def
proof (rule foldl_invariant)
  show "addresses_ok \<lparr>issuesById = Map.empty, epicList = [], epicsByKey = Map.empty\<rparr>"
    by (simp add: addresses_ok_def)
qed (rule pass1_step_addresses_ok)

lemma foldl_pass1_has_key:
  "r \<in> set rs \<Longrightarrow> issueTypeOf cols r = Some ''epic'' \<Longrightarrow>
     epicsByKey (foldl (pass1_step pf cols) st rs) (cell r (keyCol cols)) \<noteq> None"
proof (induction rs arbitrary: st rule: rev_induct)
  case Nil
  then show ?case by simp
next
  case (snoc x xs)
  show ?case
  proof (cases "issueTypeOf cols x = Some ''epic'' \<and> cell x (keyCol cols) = cell r (keyCol cols)")
    case True
    then show ?thesis by (simp add: pass1_step_epicsByKey)
  next
    case False
    then have "r \<in> set xs" using snoc.prems by auto
    then have "epicsByKey (foldl (pass1_step pf cols) st xs) (cell r (keyCol cols)) \<noteq> None"
      using snoc.IH snoc.prems(2) by blast
    then show ?thesis by (auto simp: pass1_step_epicsByKey)
  qed
qed

lemma pass1_has_key:
  "r \<in> set rs \<Longrightarrow> issueTypeOf cols r = Some ''epic'' \<Longrightarrow>
     epicsByKey (pass1 pf cols rs) (cell r (keyCol cols)) \<noteq> None"
  unfolding pass1_def by (rule foldl_pass1_has_key)

subsection \<open>The store only grows\<close>

lemma grows_refl: "grows es es"
  by (simp add: grows_def)

lemma grows_trans: "grows a b \<Longrightarrow> grows b c \<Longrightarrow> grows a c"
  unfolding grows_def by (metis subset_trans)

lemma addChild_simps:
  "epicKey (addChild e c) = epicKey e"
  "storyPoints (addChild e c) = storyPoints e"
  "children (addChild e c) = children e @ [c]"
  "totalStoryPoints (addChild e c) = totalStoryPoints e + childStoryPoints c"
  "completedStoryPoints (addChild e c) =
     completedStoryPoints e + (if isCompleted c then childStoryPoints c else 0)"
  by (simp_all add: addChild_def)

lemma length_attachChild: "length (attachChild es i c) = length es"
  by (simp add: attachChild_def)

lemma nth_attachChild:
  "j < length es \<Longrightarrow>
     attachChild es i c ! j = (if j = i then addChild (es ! i) c else es ! j)"
  by (simp add: attachChild_def nth_list_update)

lemma grows_attachChild: "grows es (attachChild es i c)"
  unfolding grows_def
  by (auto simp: length_attachChild nth_attachChild addChild_simps)

lemma attachChild_has_child:
  "i < length es \<Longrightarrow> c \<in> set (children (attachChild es i c ! i))"
  by (simp add: nth_attachChild addChild_simps)

lemma grows_pass2_step: "grows (fst acc) (fst (pass2_step pf cols st acc r))"
  by (auto simp: pass2_step_def Let_def grows_refl grows_attachChild split: option.splits)

lemma grows_foldl_pass2:
  "grows (fst acc) (fst (foldl (pass2_step pf cols st) acc rs))"
  by (rule foldl_invariant [where P = "\<lambda>b. grows (fst acc) (fst b)"])
     (auto intro: grows_refl grows_trans grows_pass2_step)

lemma grows_distribute_step: "grows es (distribute_step pf cols groups es r)"
  by (auto simp: distribute_step_def Let_def grows_refl grows_attachChild
      split: option.splits list.splits)

lemma grows_balancedDistribution: "grows es (balancedDistribution lc pf cols rs es)"
  unfolding balancedDistribution_def
  by (rule foldl_invariant [where P = "grows es"])
     (auto intro: grows_refl grows_trans grows_distribute_step)

lemma grows_linkedEpics:
  "grows (epicList (pass1 pf cols rs)) (linkedEpics pf cols rs)"
  unfolding linkedEpics_def pass2_def
  using grows_foldl_pass2 [of "(epicList (pass1 pf cols rs), 0)"] by simp

lemma grows_distributedEpics:
  "grows (linkedEpics pf cols rs) (distributedEpics lc pf cols rs)"
  by (simp add: distributedEpics_def grows_refl grows_balancedDistribution)

lemma sortEpicsById_set: "sortEpicsById lc es = Inr ordered \<Longrightarrow> set ordered = set es"
  by (auto simp: sortEpicsById_def set_sort_cmp split: if_splits)

lemma sortEpicsById_mset: "sortEpicsById lc es = Inr ordered \<Longrightarrow> mset ordered = mset es"
  by (auto simp: sortEpicsById_def mset_sort_cmp split: if_splits)

subsection \<open>A record linked by its Epic Link\<close>

lemma epic_link_target:
  assumes "truthy (epicLinkCol cols)" "cell r (epicLinkCol cols) = Some l" "l \<noteq> []"
    "epicsByKey st (Some l) = Some i"
  shows "findParentEpicKey cols st r = Some l"
proof -
  have "strategy_key (epicsByKey st) r (epicLinkCol cols) = Some l"
    using assms by (simp add: strategy_key_def)
  then have "link_target cols st r = Some l"
    by (simp add: link_target_spec spec_linkage_def)
  then show ?thesis by (simp add: link_target_def split: if_splits)
qed

lemma pass2_step_epic_link:
  assumes "issueTypeOf cols r \<noteq> Some ''epic''"
    "truthy (epicLinkCol cols)" "cell r (epicLinkCol cols) = Some l" "l \<noteq> []"
    "epicsByKey st (Some l) = Some i"
  shows "pass2_step pf cols st acc r =
           (attachChild (fst acc) i (makeChild pf cols r (Some l)), snd acc + 1)"
  using assms epic_link_target [OF assms(2-5)] by (simp add: pass2_step_def)

lemma pass2_epic_link_child:
  assumes "r \<in> set rs" "issueTypeOf cols r \<noteq> Some ''epic''"
    "truthy (epicLinkCol cols)" "cell r (epicLinkCol cols) = Some l" "l \<noteq> []"
    "epicsByKey st (Some l) = Some i" "i < length (epicList st)"
  shows "makeChild pf cols r (Some l) \<in> set (children (fst (pass2 pf cols st rs) ! i))"
proof -
  obtain pre post where rs: "rs = pre @ r # post" using assms(1) by (meson split_list)
  define a1 where "a1 = foldl (pass2_step pf cols st) (epicList st, 0) pre"
  define a2 where "a2 = pass2_step pf cols st a1 r"
  have g1: "grows (epicList st) (fst a1)"
    using grows_foldl_pass2 [of "(epicList st, 0)" pf cols st pre] by (simp add: a1_def)
  then have len: "i < length (fst a1)" using assms(7) by (simp add: grows_def)
  have "fst a2 = attachChild (fst a1) i (makeChild pf cols r (Some l))"
    unfolding a2_def using pass2_step_epic_link [OF assms(2-6)] by simp
  then have c2: "makeChild pf cols r (Some l) \<in> set (children (fst a2 ! i))"
    using attachChild_has_child [OF len] by simp
  have len2: "i < length (fst a2)"
    using len grows_pass2_step [of a1 pf cols st r] by (simp add: a2_def grows_def)
  have "pass2 pf cols st rs = foldl (pass2_step pf cols st) a2 post"
    by (simp add: pass2_def rs a1_def a2_def)
  moreover have "grows (fst a2) (fst (foldl (pass2_step pf cols st) a2 post))"
    by (rule grows_foldl_pass2)
  ultimately show ?thesis using c2 len2 unfolding grows_def by auto
qed

lemma processMainCSV_Inr:
  "processMainCSV lc pf \<lparr>headers = hs, records = Array rs\<rparr> = Inr result \<Longrightarrow>
     \<exists>ordered. sortEpicsById lc (distributedEpics lc pf (resolveColumns hs) rs) = Inr ordered
       \<and> result = \<lparr>epics = ordered, childIssues = concat (map children ordered)\<rparr>"
  by (auto simp: processMainCSV_def processMainCSV_try_def buildHierarchy_def
      split: sum.splits)

lemma grows_final:
  "grows (epicList (pass1 pf cols rs)) (distributedEpics lc pf cols rs)"
  using grows_linkedEpics grows_distributedEpics by (rule grows_trans)

text \<open>
  Claim C3. The four \<open>if\<close> statements of pass 2 compute the first success of the four
  strategies in their fixed order: the key the code links under is the one the first
  successful strategy yields. In particular a record that is no epic and whose Epic Link
  cell names an existing epic is attached by pass 2 to the epic filed under that key,
  once, whatever its Parent cell holds, and the epic of that key in the result of
  \<open>processMainCSV\<close> has the child.
\<close>

theorem epic_link_wins:
  "link_target cols st r = spec_linkage cols st r
   \<and> (processMainCSV lc pf \<lparr>headers = hs, records = Array rs\<rparr> = Inr result
        \<and> r \<in> set rs \<and> issueTypeOf (resolveColumns hs) r \<noteq> Some ''epic''
        \<and> truthy (epicLinkCol (resolveColumns hs))
        \<and> cell r (epicLinkCol (resolveColumns hs)) = Some l \<and> l \<noteq> []
        \<and> (\<exists>e\<in>set rs. issueTypeOf (resolveColumns hs) e = Some ''epic''
                \<and> cell e (keyCol (resolveColumns hs)) = Some l)
      \<longrightarrow> (\<exists>i. epicsByKey (pass1 pf (resolveColumns hs) rs) (Some l) = Some i
             \<and> (\<forall>acc. pass2_step pf (resolveColumns hs) (pass1 pf (resolveColumns hs) rs) acc r
                        = (attachChild (fst acc) i (makeChild pf (resolveColumns hs) r (Some l)),
                           snd acc + 1)))
          \<and> (\<exists>e\<in>set (epics result). epicKey e = Some l
                \<and> makeChild pf (resolveColumns hs) r (Some l) \<in> set (children e)))"
proof (rule conjI, rule link_target_spec, rule impI)
  define C where "C = resolveColumns hs"
  define st1 where "st1 = pass1 pf C rs"
  assume h: "processMainCSV lc pf \<lparr>headers = hs, records = Array rs\<rparr> = Inr result
        \<and> r \<in> set rs \<and> issueTypeOf (resolveColumns hs) r \<noteq> Some ''epic''
        \<and> truthy (epicLinkCol (resolveColumns hs))
        \<and> cell r (epicLinkCol (resolveColumns hs)) = Some l \<and> l \<noteq> []
        \<and> (\<exists>e\<in>set rs. issueTypeOf (resolveColumns hs) e = Some ''epic''
                \<and> cell e (keyCol (resolveColumns hs)) = Some l)"
  then have res: "processMainCSV lc pf \<lparr>headers = hs, records = Array rs\<rparr> = Inr result"
    and r: "r \<in> set rs" "issueTypeOf C r \<noteq> Some ''epic''"
    and link: "truthy (epicLinkCol C)" "cell r (epicLinkCol C) = Some l" "l \<noteq> []"
    and ex: "\<exists>e\<in>set rs. issueTypeOf C e = Some ''epic'' \<and> cell e (keyCol C) = Some l"
    unfolding C_def by blast+
  from ex obtain e0 where e0: "e0 \<in> set rs" "issueTypeOf C e0 = Some ''epic''"
    "cell e0 (keyCol C) = Some l" by blast
  have "epicsByKey st1 (Some l) \<noteq> None"
    using pass1_has_key [OF e0(1,2), of pf] e0(3) by (simp add: st1_def)
  then obtain i where i: "epicsByKey st1 (Some l) = Some i" by blast
  have ok: "i < length (epicList st1)" "epicKey (epicList st1 ! i) = Some l"
    using pass1_addresses_ok [of pf C rs] i unfolding addresses_ok_def st1_def by blast+
  have step: "\<forall>acc. pass2_step pf C st1 acc r
                 = (attachChild (fst acc) i (makeChild pf C r (Some l)), snd acc + 1)"
    using pass2_step_epic_link [OF r(2) link i] by blast
  have child: "makeChild pf C r (Some l) \<in> set (children (linkedEpics pf C rs ! i))"
    using pass2_epic_link_child [OF r link i ok(1)] by (simp add: linkedEpics_def st1_def)
  have g1: "grows (epicList st1) (linkedEpics pf C rs)"
    unfolding st1_def by (rule grows_linkedEpics)
  have g2: "grows (linkedEpics pf C rs) (distributedEpics lc pf C rs)"
    by (rule grows_distributedEpics)
  define final where "final = distributedEpics lc pf C rs"
  have len: "i < length (linkedEpics pf C rs)" "i < length final"
    using ok(1) g1 g2 by (simp_all add: grows_def final_def)
  have key: "epicKey (final ! i) = Some l"
    using ok g1 g2 len unfolding grows_def final_def by simp
  have ch: "makeChild pf C r (Some l) \<in> set (children (final ! i))"
    using child g2 len unfolding grows_def final_def by auto
  from processMainCSV_Inr [OF res] obtain ordered where
    o: "sortEpicsById lc final = Inr ordered" "epics result = ordered"
    unfolding final_def C_def by auto
  have "final ! i \<in> set ordered"
    using sortEpicsById_set [OF o(1)] len(2) by simp
  then have "\<exists>e\<in>set (epics result). epicKey e = Some l
                \<and> makeChild pf C r (Some l) \<in> set (children e)"
    using key ch o(2) by blast
  moreover have "\<exists>i. epicsByKey st1 (Some l) = Some i
             \<and> (\<forall>acc. pass2_step pf C st1 acc r
                        = (attachChild (fst acc) i (makeChild pf C r (Some l)), snd acc + 1))"
    using i step by blast
  ultimately show "(\<exists>i. epicsByKey (pass1 pf (resolveColumns hs) rs) (Some l) = Some i
             \<and> (\<forall>acc. pass2_step pf (resolveColumns hs) (pass1 pf (resolveColumns hs) rs) acc r
                        = (attachChild (fst acc) i (makeChild pf (resolveColumns hs) r (Some l)),
                           snd acc + 1)))
          \<and> (\<exists>e\<in>set (epics result). epicKey e = Some l
                \<and> makeChild pf (resolveColumns hs) r (Some l) \<in> set (children e))"
    unfolding C_def st1_def by blast
qed

subsection \<open>Story points\<close>

lemma points_ok_makeEpic:
  "0 \<le> storyPointsOf pf cols r \<Longrightarrow> points_ok (makeEpic pf cols r)"
  by (simp add: points_ok_def makeEpic_def)

lemma points_ok_addChild:
  "points_ok e \<Longrightarrow> 0 \<le> childStoryPoints c \<Longrightarrow> points_ok (addChild e c)"
  by (auto simp: points_ok_def addChild_simps)

lemma points_ok_attachChild:
  assumes "\<forall>e\<in>set es. points_ok e" "0 \<le> childStoryPoints c"
  shows "\<forall>e\<in>set (attachChild es i c). points_ok e"
proof (cases "i < length es")
  case True
  then have "points_ok (addChild (es ! i) c)"
    using assms by (simp add: points_ok_addChild)
  moreover have "set (attachChild es i c) \<subseteq> insert (addChild (es ! i) c) (set es)"
    unfolding attachChild_def by (rule set_update_subset_insert)
  ultimately show ?thesis using assms(1) by auto
next
  case False
  then show ?thesis using assms(1) by (simp add: attachChild_def list_update_beyond)
qed

lemma points_ok_pass1:
  "\<forall>r\<in>set rs. 0 \<le> storyPointsOf pf cols r \<Longrightarrow>
     \<forall>e\<in>set (epicList (pass1 pf cols rs)). points_ok e"
  by (auto simp: pass1_epicList points_ok_makeEpic)

lemma childStoryPoints_makeChild [simp]:
  "childStoryPoints (makeChild pf cols r k) = storyPointsOf pf cols r"
  by (simp add: makeChild_def)

lemma childStoryPoints_makeDistributedChild [simp]:
  "childStoryPoints (makeDistributedChild pf cols r k) = storyPointsOf pf cols r"
  by (simp add: makeDistributedChild_def)

lemma pass2_step_cases:
  "pass2_step pf cols st acc r = acc
   \<or> (\<exists>i k. pass2_step pf cols st acc r
                = (attachChild (fst acc) i (makeChild pf cols r k), snd acc + 1))"
  by (auto simp: pass2_step_def Let_def split: option.splits)

lemma distribute_step_cases:
  "distribute_step pf cols groups es r = es
   \<or> (\<exists>i k. distribute_step pf cols groups es r
                = attachChild es i (makeDistributedChild pf cols r k))"
  by (auto simp: distribute_step_def Let_def split: option.splits list.splits)

lemma points_ok_pass2_step:
  assumes "\<forall>e\<in>set (fst acc). points_ok e" "0 \<le> storyPointsOf pf cols r"
  shows "\<forall>e\<in>set (fst (pass2_step pf cols st acc r)). points_ok e"
  using pass2_step_cases [of pf cols st acc r]
proof
  assume "pass2_step pf cols st acc r = acc"
  then show ?thesis using assms(1) by simp
next
  assume "\<exists>i k. pass2_step pf cols st acc r
                = (attachChild (fst acc) i (makeChild pf cols r k), snd acc + 1)"
  then obtain i k where "fst (pass2_step pf cols st acc r)
      = attachChild (fst acc) i (makeChild pf cols r k)" by auto
  then show ?thesis
    using points_ok_attachChild [OF assms(1), of "makeChild pf cols r k" i] assms(2) by simp
qed

lemma points_ok_linkedEpics:
  assumes "\<forall>r\<in>set rs. 0 \<le> storyPointsOf pf cols r"
  shows "\<forall>e\<in>set (linkedEpics pf cols rs). points_ok e"
  unfolding linkedEpics_def pass2_def
proof (rule foldl_invariant [where P = "\<lambda>b. \<forall>e\<in>set (fst b). points_ok e"])
  show "\<forall>e\<in>set (fst (epicList (pass1 pf cols rs), 0::nat)). points_ok e"
    using points_ok_pass1 [OF assms] by simp
next
  fix b :: "epic list \<times> nat" and x
  assume "x \<in> set rs" "\<forall>e\<in>set (fst b). points_ok e"
  then show "\<forall>e\<in>set (fst (pass2_step pf cols (pass1 pf cols rs) b x)). points_ok e"
    using assms points_ok_pass2_step by blast
qed

lemma points_ok_distribute_step:
  assumes "\<forall>e\<in>set es. points_ok e" "0 \<le> storyPointsOf pf cols r"
  shows "\<forall>e\<in>set (distribute_step pf cols groups es r). points_ok e"
  using distribute_step_cases [of pf cols groups es r]
proof
  assume "distribute_step pf cols groups es r = es"
  then show ?thesis using assms(1) by simp
next
  assume "\<exists>i k. distribute_step pf cols groups es r
                = attachChild es i (makeDistributedChild pf cols r k)"
  then obtain i k where "distribute_step pf cols groups es r
      = attachChild es i (makeDistributedChild pf cols r k)" by auto
  then show ?thesis
    using points_ok_attachChild [OF assms(1), of "makeDistributedChild pf cols r k" i] assms(2)
    by simp
qed

lemma points_ok_balancedDistribution:
  assumes "\<forall>r\<in>set rs. 0 \<le> storyPointsOf pf cols r" "\<forall>e\<in>set es. points_ok e"
  shows "\<forall>e\<in>set (balancedDistribution lc pf cols rs es). points_ok e"
  unfolding balancedDistribution_def
proof (rule foldl_invariant [where P = "\<lambda>b. \<forall>e\<in>set b. points_ok e"])
  show "\<forall>e\<in>set es. points_ok e" by (rule assms(2))
next
  fix b x
  assume "x \<in> set (filter (nonEpicIssue cols) rs)" "\<forall>e\<in>set b. points_ok e"
  then show "\<forall>e\<in>set (distribute_step pf cols (epicsByProject lc es) b x). points_ok e"
    using assms(1) by (intro points_ok_distribute_step) auto
qed

lemma points_ok_distributedEpics:
  "\<forall>r\<in>set rs. 0 \<le> storyPointsOf pf cols r \<Longrightarrow>
     \<forall>e\<in>set (distributedEpics lc pf cols rs). points_ok e"
  using points_ok_linkedEpics [of rs pf cols] points_ok_balancedDistribution [of rs pf cols]
  by (simp add: distributedEpics_def)

text \<open>
  Claim C6. When every record's story points are at least \<open>0\<close>, every epic that
  \<open>processMainCSV\<close> returns has \<open>totalStoryPoints\<close> at least its own \<open>storyPoints\<close> and
  \<open>completedStoryPoints\<close> at most \<open>totalStoryPoints\<close>. Attaching a child adds its points to
  the total and, when the child is completed, the same amount to the completed points;
  a child is completed when its status is in the completed-status set.
\<close>

theorem story_points_invariant:
  "(processMainCSV lc pf \<lparr>headers = hs, records = Array rs\<rparr> = Inr result
      \<and> (\<forall>r\<in>set rs. 0 \<le> storyPointsOf pf (resolveColumns hs) r)
    \<longrightarrow> (\<forall>e\<in>set (epics result).
           storyPoints e \<le> totalStoryPoints e \<and> completedStoryPoints e \<le> totalStoryPoints e))
   \<and> storyPoints (addChild e c) = storyPoints e
   \<and> totalStoryPoints (addChild e c) = totalStoryPoints e + childStoryPoints c
   \<and> completedStoryPoints (addChild e c)
       = completedStoryPoints e + (if isCompleted c then childStoryPoints c else 0)
   \<and> isCompleted (makeChild pf cols r k) = is_completed (cell r (statusCol cols))
   \<and> isCompleted (makeDistributedChild pf cols r t) = is_completed (cell r (statusCol cols))"
proof (intro conjI)
  show "processMainCSV lc pf \<lparr>headers = hs, records = Array rs\<rparr> = Inr result
      \<and> (\<forall>r\<in>set rs. 0 \<le> storyPointsOf pf (resolveColumns hs) r)
    \<longrightarrow> (\<forall>e\<in>set (epics result).
           storyPoints e \<le> totalStoryPoints e \<and> completedStoryPoints e \<le> totalStoryPoints e)"
  proof
    assume h: "processMainCSV lc pf \<lparr>headers = hs, records = Array rs\<rparr> = Inr result
      \<and> (\<forall>r\<in>set rs. 0 \<le> storyPointsOf pf (resolveColumns hs) r)"
    then obtain ordered where
      o: "sortEpicsById lc (distributedEpics lc pf (resolveColumns hs) rs) = Inr ordered"
         "epics result = ordered"
      using processMainCSV_Inr [of lc pf hs rs result] by auto
    have "\<forall>e\<in>set (distributedEpics lc pf (resolveColumns hs) rs). points_ok e"
      using h points_ok_distributedEpics by blast
    then have "\<forall>e\<in>set (epics result). points_ok e"
      using sortEpicsById_set [OF o(1)] o(2) by simp
    then show "\<forall>e\<in>set (epics result).
           storyPoints e \<le> totalStoryPoints e \<and> completedStoryPoints e \<le> totalStoryPoints e"
      by (simp add: points_ok_def)
  qed
qed (simp_all add: addChild_simps makeChild_def makeDistributedChild_def)

subsection \<open>Counting children\<close>

lemma childCount_attachChild:
  assumes "i < length es"
  shows "childCount (attachChild es i c) = childCount es + 1"
proof -
  let ?f = "\<lambda>e. length (children e)"
  have "map ?f (attachChild es i c) = (map ?f es)[i := ?f (es ! i) + 1]"
    by (simp add: attachChild_def map_update addChild_simps)
  moreover have "sum_list ((map ?f es)[i := ?f (es ! i) + 1])
        = sum_list (map ?f es) + (?f (es ! i) + 1) - (map ?f es) ! i"
    using assms by (simp add: sum_list_update)
  ultimately show ?thesis using assms by (simp add: childCount_def)
qed

lemma childCount_pass1: "childCount (epicList (pass1 pf cols rs)) = 0"
  by (simp add: childCount_def pass1_epicList makeEpic_def)

lemma childCount_sum_mset:
  "childCount xs = sum_mset (image_mset (\<lambda>e. length (children e)) (mset xs))"
proof -
  have "childCount xs = sum_mset (mset (map (\<lambda>e. length (children e)) xs))"
    unfolding childCount_def by (simp only: sum_mset_sum_list)
  then show ?thesis by simp
qed

lemma childCount_mset: "mset xs = mset ys \<Longrightarrow> childCount xs = childCount ys"
  by (simp add: childCount_sum_mset)

lemma length_concat_children: "length (concat (map children es)) = childCount es"
  by (simp add: childCount_def length_concat comp_def)

lemma pass2_step_count:
  assumes "addresses_ok st" "length (fst acc) = length (epicList st)"
    "childCount (fst acc) = snd acc"
  shows "length (fst (pass2_step pf cols st acc r)) = length (epicList st)
         \<and> childCount (fst (pass2_step pf cols st acc r)) = snd (pass2_step pf cols st acc r)"
proof (cases "issueTypeOf cols r \<noteq> Some ''epic'' \<and> truthy (findParentEpicKey cols st r)
              \<and> epicsByKey st (findParentEpicKey cols st r) \<noteq> None")
  case False
  then have "pass2_step pf cols st acc r = acc"
    by (auto simp: pass2_step_def Let_def split: option.splits)
  then show ?thesis using assms by simp
next
  case True
  then obtain i where i: "epicsByKey st (findParentEpicKey cols st r) = Some i" by blast
  then have lt: "i < length (fst acc)"
    using assms(1,2) unfolding addresses_ok_def by metis
  have "pass2_step pf cols st acc r =
          (attachChild (fst acc) i (makeChild pf cols r (findParentEpicKey cols st r)),
           snd acc + 1)"
    using True i by (simp add: pass2_step_def Let_def)
  then show ?thesis
    using assms(2,3) childCount_attachChild [OF lt] by (simp add: length_attachChild)
qed

lemma pass2_count:
  "length (linkedEpics pf cols rs) = length (epicList (pass1 pf cols rs))
   \<and> childCount (linkedEpics pf cols rs) = linkedIssuesCount pf cols rs"
  unfolding linkedEpics_def linkedIssuesCount_def pass2_def
proof (rule foldl_invariant
    [where P = "\<lambda>b. length (fst b) = length (epicList (pass1 pf cols rs))
                    \<and> childCount (fst b) = snd b"])
  show "length (fst (epicList (pass1 pf cols rs), 0::nat)) = length (epicList (pass1 pf cols rs))
        \<and> childCount (fst (epicList (pass1 pf cols rs), 0::nat))
            = snd (epicList (pass1 pf cols rs), 0::nat)"
    by (simp add: childCount_pass1)
next
  fix b :: "epic list \<times> nat" and x
  assume "length (fst b) = length (epicList (pass1 pf cols rs)) \<and> childCount (fst b) = snd b"
  then show "length (fst (pass2_step pf cols (pass1 pf cols rs) b x))
               = length (epicList (pass1 pf cols rs))
             \<and> childCount (fst (pass2_step pf cols (pass1 pf cols rs) b x))
               = snd (pass2_step pf cols (pass1 pf cols rs) b x)"
    using pass2_step_count [OF pass1_addresses_ok] by blast
qed

subsection \<open>Project groups\<close>

lemma group_epic_apply:
  "group_epic groups ie pk =
     groups pk @ (case project_entry pk ie of Some entry \<Rightarrow> [entry] | None \<Rightarrow> [])"
  by (auto simp: group_epic_def project_entry_def split: option.splits)

lemma foldl_group_epic:
  "foldl group_epic groups ies pk = groups pk @ List.map_filter (project_entry pk) ies"
proof (induction ies arbitrary: groups)
  case Nil
  then show ?case by (simp add: map_filter_simps)
next
  case (Cons ie ies)
  have "foldl group_epic groups (ie # ies) pk
          = group_epic groups ie pk @ List.map_filter (project_entry pk) ies"
    using Cons.IH [of "group_epic groups ie"] by simp
  also have "\<dots> = groups pk @ List.map_filter (project_entry pk) (ie # ies)"
    by (cases "project_entry pk ie") (simp_all add: group_epic_apply map_filter_simps)
  finally show ?case .
qed

lemma set_map_filter: "set (List.map_filter f xs) = {y. \<exists>x\<in>set xs. f x = Some y}"
  by (induction xs) (auto simp: map_filter_simps split: option.splits)

lemma set_epicsByProject:
  "set (epicsByProject lc es pk) = set (List.map_filter (project_entry pk) (enumerate 0 es))"
  by (simp add: epicsByProject_def set_sort_cmp foldl_group_epic)

lemma epicsByProject_member:
  "(k, i) \<in> set (epicsByProject lc es pk) \<longleftrightarrow>
     i < length es \<and> epicKey (es ! i) = Some k \<and> getProjectKey (Some k) = Some pk"
proof -
  have "(k, i) \<in> set (List.map_filter (project_entry pk) (enumerate 0 es)) \<longleftrightarrow>
          (\<exists>ie\<in>set (enumerate 0 es). project_entry pk ie = Some (k, i))"
    by (simp add: set_map_filter)
  also have "\<dots> \<longleftrightarrow> i < length es \<and> epicKey (es ! i) = Some k \<and> getProjectKey (Some k) = Some pk"
  proof
    assume "\<exists>ie\<in>set (enumerate 0 es). project_entry pk ie = Some (k, i)"
    then obtain j e where je: "(j, e) \<in> set (enumerate 0 es)" "project_entry pk (j, e) = Some (k, i)"
      by auto
    from je(1) have "j < length es" "es ! j = e" by (simp_all add: in_set_enumerate_eq)
    moreover from je(2) have "j = i" "epicKey e = Some k" "getProjectKey (Some k) = Some pk"
      by (auto simp: project_entry_def split: option.splits if_splits)
    ultimately show "i < length es \<and> epicKey (es ! i) = Some k \<and> getProjectKey (Some k) = Some pk"
      by simp
  next
    assume a: "i < length es \<and> epicKey (es ! i) = Some k \<and> getProjectKey (Some k) = Some pk"
    then have "(i, es ! i) \<in> set (enumerate 0 es)" by (simp add: in_set_enumerate_eq)
    moreover have "project_entry pk (i, es ! i) = Some (k, i)"
      using a by (simp add: project_entry_def)
    ultimately show "\<exists>ie\<in>set (enumerate 0 es). project_entry pk ie = Some (k, i)" by blast
  qed
  finally show ?thesis by (simp add: set_epicsByProject)
qed

lemma targetEpic_decomposition:
  "\<exists>pre post. first # rest = pre @ targetEpic es first (first # rest) # post
     \<and> (\<forall>e\<in>set pre. load es (targetEpic es first (first # rest)) < load es e)
     \<and> (\<forall>e\<in>set post. load es (targetEpic es first (first # rest)) \<le> load es e)"
proof -
  define step where "step = (\<lambda>m e. if load es e < load es m then e else m)"
  define t where "t = foldl step first rest"
  have "fewer_children es = step"
    unfolding step_def by (intro ext) (simp add: fewer_children_def load_def)
  then have tt: "targetEpic es first (first # rest) = t"
    by (simp add: targetEpic_def t_def step_def)
  have "(t = first \<and> (\<forall>e\<in>set rest. load es first \<le> load es e))
        \<or> (\<exists>pre post. rest = pre @ t # post \<and> load es t < load es first
              \<and> (\<forall>e\<in>set pre. load es t < load es e)
              \<and> (\<forall>e\<in>set post. load es t \<le> load es e))"
    using foldl_min_first [of "load es" first rest] unfolding t_def step_def .
  then have "\<exists>pre post. first # rest = pre @ t # post
     \<and> (\<forall>e\<in>set pre. load es t < load es e) \<and> (\<forall>e\<in>set post. load es t \<le> load es e)"
  proof
    assume a: "t = first \<and> (\<forall>e\<in>set rest. load es first \<le> load es e)"
    then have "first # rest = [] @ t # rest \<and> (\<forall>e\<in>set []. load es t < load es e)
                 \<and> (\<forall>e\<in>set rest. load es t \<le> load es e)"
      by simp
    then show ?thesis by (intro exI)
  next
    assume "\<exists>pre post. rest = pre @ t # post \<and> load es t < load es first
              \<and> (\<forall>e\<in>set pre. load es t < load es e)
              \<and> (\<forall>e\<in>set post. load es t \<le> load es e)"
    then obtain pre post where d: "rest = pre @ t # post" "load es t < load es first"
      "\<forall>e\<in>set pre. load es t < load es e" "\<forall>e\<in>set post. load es t \<le> load es e"
      by blast
    then have "first # rest = (first # pre) @ t # post
                 \<and> (\<forall>e\<in>set (first # pre). load es t < load es e)
                 \<and> (\<forall>e\<in>set post. load es t \<le> load es e)"
      by simp
    then show ?thesis by (intro exI)
  qed
  then show ?thesis unfolding tt .
qed

lemma targetEpic_member: "targetEpic es first (first # rest) \<in> set (first # rest)"
proof -
  obtain pre post where "first # rest = pre @ targetEpic es first (first # rest) # post"
    using targetEpic_decomposition [of first rest es] by blast
  then have "set (first # rest) = set (pre @ targetEpic es first (first # rest) # post)"
    by (simp only:)
  then show ?thesis by auto
qed

subsection \<open>Counting the distribution\<close>

lemma distribute_step_no_group:
  "\<not> has_group cols groups r \<Longrightarrow> distribute_step pf cols groups es r = es"
  by (auto simp: has_group_def distribute_step_def split: option.splits list.splits)

lemma distribute_step_group:
  assumes "getProjectKey (cell r (keyCol cols)) = Some pk" "groups pk = first # rest"
  shows "distribute_step pf cols groups es r =
           attachChild es (snd (targetEpic es first (first # rest)))
             (makeDistributedChild pf cols r (fst (targetEpic es first (first # rest))))"
  using assms by (simp add: distribute_step_def Let_def)

lemma distribute_step_count:
  assumes "\<forall>pk. \<forall>entry\<in>set (groups pk). snd entry < length es"
  shows "length (distribute_step pf cols groups es r) = length es
         \<and> childCount (distribute_step pf cols groups es r)
             = childCount es + (if has_group cols groups r then 1 else 0)"
proof (cases "has_group cols groups r")
  case False
  then show ?thesis by (simp add: distribute_step_no_group)
next
  case True
  then obtain pk first rest where g: "getProjectKey (cell r (keyCol cols)) = Some pk"
    "groups pk = first # rest"
    by (auto simp: has_group_def neq_Nil_conv split: option.splits)
  have "targetEpic es first (first # rest) \<in> set (groups pk)"
    using targetEpic_member [of es first rest] g(2) by simp
  then have lt: "snd (targetEpic es first (first # rest)) < length es"
    using assms by blast
  have "distribute_step pf cols groups es r =
           attachChild es (snd (targetEpic es first (first # rest)))
             (makeDistributedChild pf cols r (fst (targetEpic es first (first # rest))))"
    using g by (simp add: distribute_step_def Let_def)
  then show ?thesis
    using True childCount_attachChild [OF lt] by (simp add: length_attachChild)
qed

lemma foldl_distribute_count:
  "\<forall>pk. \<forall>entry\<in>set (groups pk). snd entry < length es \<Longrightarrow>
     length (foldl (distribute_step pf cols groups) es rs) = length es
     \<and> childCount (foldl (distribute_step pf cols groups) es rs)
         = childCount es + length (filter (has_group cols groups) rs)"
proof (induction rs arbitrary: es)
  case Nil
  then show ?case by simp
next
  case (Cons r rs)
  define es1 where "es1 = distribute_step pf cols groups es r"
  have s: "length es1 = length es"
    "childCount es1 = childCount es + (if has_group cols groups r then 1 else 0)"
    using distribute_step_count [OF Cons.prems, of pf cols r] by (simp_all add: es1_def)
  have "\<forall>pk. \<forall>entry\<in>set (groups pk). snd entry < length es1"
    using Cons.prems s(1) by simp
  then have "length (foldl (distribute_step pf cols groups) es1 rs) = length es1
     \<and> childCount (foldl (distribute_step pf cols groups) es1 rs)
         = childCount es1 + length (filter (has_group cols groups) rs)"
    by (rule Cons.IH)
  then show ?case using s by (simp add: es1_def)
qed

lemma epicsByProject_addresses:
  "\<forall>pk. \<forall>entry\<in>set (epicsByProject lc es pk). snd entry < length es"
  using epicsByProject_member [of _ _ lc es] by auto

lemma distributable_has_group:
  "distributable lc cols es r
     = (nonEpicIssue cols r \<and> has_group cols (epicsByProject lc es) r)"
  by (simp add: distributable_def has_group_def)

lemma balancedDistribution_count:
  "childCount (balancedDistribution lc pf cols rs es)
     = childCount es + length (filter (distributable lc cols es) rs)"
proof -
  have "(\<lambda>r. nonEpicIssue cols r \<and> has_group cols (epicsByProject lc es) r)
          = distributable lc cols es"
    by (intro ext) (simp add: distributable_has_group)
  then have "filter (has_group cols (epicsByProject lc es)) (filter (nonEpicIssue cols) rs)
          = filter (distributable lc cols es) rs"
    by (simp add: conj_commute)
  then show ?thesis
    unfolding balancedDistribution_def
    using foldl_distribute_count
            [OF epicsByProject_addresses, where pf = pf and cols = cols and lc1 = lc and es = es]
    by simp
qed

text \<open>
  Claim C5. When the linked count is not below a tenth of the record count, the epics
  returned are the epics as pass 2 left them, sorted, and the children returned are as
  many as pass 2 linked: no record is distributed. When it is below, the epics returned
  are those the balanced distribution produced, and the children are those of pass 2
  and one for each record the distribution attaches.
\<close>

theorem fallback_threshold:
  "processMainCSV lc pf \<lparr>headers = hs, records = Array rs\<rparr> = Inr result \<longrightarrow>
     (\<not> 10 * linkedIssuesCount pf (resolveColumns hs) rs < length rs \<longrightarrow>
        sortEpicsById lc (linkedEpics pf (resolveColumns hs) rs) = Inr (epics result)
        \<and> length (childIssues result) = linkedIssuesCount pf (resolveColumns hs) rs)
     \<and> (10 * linkedIssuesCount pf (resolveColumns hs) rs < length rs \<longrightarrow>
        sortEpicsById lc
          (balancedDistribution lc pf (resolveColumns hs) rs
             (linkedEpics pf (resolveColumns hs) rs)) = Inr (epics result)
        \<and> length (childIssues result)
            = linkedIssuesCount pf (resolveColumns hs) rs
              + length (filter (distributable lc (resolveColumns hs)
                                  (linkedEpics pf (resolveColumns hs) rs)) rs))"
proof
  define C where "C = resolveColumns hs"
  assume "processMainCSV lc pf \<lparr>headers = hs, records = Array rs\<rparr> = Inr result"
  then obtain ordered where
    o: "sortEpicsById lc (distributedEpics lc pf C rs) = Inr ordered"
       "result = \<lparr>epics = ordered, childIssues = concat (map children ordered)\<rparr>"
    using processMainCSV_Inr [of lc pf hs rs result] unfolding C_def by blast
  have len: "length (childIssues result) = childCount (distributedEpics lc pf C rs)"
    using o childCount_mset [OF sortEpicsById_mset [OF o(1)]]
    by (simp add: length_concat_children)
  have linked: "childCount (linkedEpics pf C rs) = linkedIssuesCount pf C rs"
    using pass2_count [of pf C rs] by simp
  have a: "\<not> 10 * linkedIssuesCount pf C rs < length rs \<longrightarrow>
        sortEpicsById lc (linkedEpics pf C rs) = Inr (epics result)
        \<and> length (childIssues result) = linkedIssuesCount pf C rs"
    using o len linked by (auto simp: distributedEpics_def)
  have b: "10 * linkedIssuesCount pf C rs < length rs \<longrightarrow>
        sortEpicsById lc (balancedDistribution lc pf C rs (linkedEpics pf C rs))
          = Inr (epics result)
        \<and> length (childIssues result)
            = linkedIssuesCount pf C rs
              + length (filter (distributable lc C (linkedEpics pf C rs)) rs)"
    using o len linked balancedDistribution_count [of lc pf C rs "linkedEpics pf C rs"]
    by (auto simp: distributedEpics_def)
  show "(\<not> 10 * linkedIssuesCount pf (resolveColumns hs) rs < length rs \<longrightarrow>
        sortEpicsById lc (linkedEpics pf (resolveColumns hs) rs) = Inr (epics result)
        \<and> length (childIssues result) = linkedIssuesCount pf (resolveColumns hs) rs)
     \<and> (10 * linkedIssuesCount pf (resolveColumns hs) rs < length rs \<longrightarrow>
        sortEpicsById lc
          (balancedDistribution lc pf (resolveColumns hs) rs
             (linkedEpics pf (resolveColumns hs) rs)) = Inr (epics result)
        \<and> length (childIssues result)
            = linkedIssuesCount pf (resolveColumns hs) rs
              + length (filter (distributable lc (resolveColumns hs)
                                  (linkedEpics pf (resolveColumns hs) rs)) rs))"
    using a b unfolding C_def by blast
qed

lemma consistent_cmp_fst:
  "consistent_cmp lc \<Longrightarrow> consistent_cmp (\<lambda>a b. lc (fst a) (fst b))"
  unfolding consistent_cmp_def by blast

lemma sorted_epicsByProject:
  "consistent_cmp lc \<Longrightarrow>
     sorted_wrt (\<lambda>a b. lc (fst a) (fst b) \<le> 0) (epicsByProject lc es pk)"
  unfolding epicsByProject_def by (rule sorted_sort_cmp) (rule consistent_cmp_fst)

text \<open>
  Claim C4, as the code has it. The balanced distribution runs over every record that
  has a non-empty type other than \<open>epic\<close> and a non-empty key, whether pass 2 linked it or
  not. The group of a project holds the epics whose key has that project prefix, sorted
  ascending by key. A record whose key has no project prefix, or the prefix of no epic,
  changes nothing. Any other record gets one child, attached to the entry of its
  project's group with the fewest children at that moment, the earliest such entry in
  the group. Pass 2 attaches a record at most once as well, so a record ends up with at
  most two attachments.
\<close>

theorem balanced_distribution_least_loaded:
  "balancedDistribution lc pf cols rs es
      = foldl (distribute_step pf cols (epicsByProject lc es)) es (filter (nonEpicIssue cols) rs)
   \<and> ((k, i) \<in> set (epicsByProject lc es pk)
        \<longleftrightarrow> i < length es \<and> epicKey (es ! i) = Some k \<and> getProjectKey (Some k) = Some pk)
   \<and> (consistent_cmp lc
        \<longrightarrow> sorted_wrt (\<lambda>a b. lc (fst a) (fst b) \<le> 0) (epicsByProject lc es pk))
   \<and> (\<not> has_group cols (epicsByProject lc es) r
        \<longrightarrow> distribute_step pf cols (epicsByProject lc es) cur r = cur)
   \<and> (has_group cols (epicsByProject lc es) r \<and> length cur = length es
        \<longrightarrow> (\<exists>projectKey pre target post.
               getProjectKey (cell r (keyCol cols)) = Some projectKey
               \<and> epicsByProject lc es projectKey = pre @ target # post
               \<and> (\<forall>e\<in>set pre. load cur target < load cur e)
               \<and> (\<forall>e\<in>set post. load cur target \<le> load cur e)
               \<and> distribute_step pf cols (epicsByProject lc es) cur r
                   = attachChild cur (snd target)
                       (makeDistributedChild pf cols r (fst target))
               \<and> childCount (distribute_step pf cols (epicsByProject lc es) cur r)
                   = childCount cur + 1))
   \<and> (pass2_step pf cols st acc r = acc
        \<or> (\<exists>i k. pass2_step pf cols st acc r
                     = (attachChild (fst acc) i (makeChild pf cols r k), snd acc + 1)))"
proof (intro conjI impI)
  show "pass2_step pf cols st acc r = acc
        \<or> (\<exists>i k. pass2_step pf cols st acc r
                     = (attachChild (fst acc) i (makeChild pf cols r k), snd acc + 1))"
    by (rule pass2_step_cases)
next
  show "balancedDistribution lc pf cols rs es
      = foldl (distribute_step pf cols (epicsByProject lc es)) es (filter (nonEpicIssue cols) rs)"
    by (simp add: balancedDistribution_def)
next
  show "(k, i) \<in> set (epicsByProject lc es pk)
        \<longleftrightarrow> i < length es \<and> epicKey (es ! i) = Some k \<and> getProjectKey (Some k) = Some pk"
    by (rule epicsByProject_member)
next
  assume "consistent_cmp lc"
  then show "sorted_wrt (\<lambda>a b. lc (fst a) (fst b) \<le> 0) (epicsByProject lc es pk)"
    by (rule sorted_epicsByProject)
next
  assume "\<not> has_group cols (epicsByProject lc es) r"
  then show "distribute_step pf cols (epicsByProject lc es) cur r = cur"
    by (rule distribute_step_no_group)
next
  define G where "G = epicsByProject lc es"
  assume h: "has_group cols (epicsByProject lc es) r \<and> length cur = length es"
  then obtain projectKey first rest where
    g: "getProjectKey (cell r (keyCol cols)) = Some projectKey" "G projectKey = first # rest"
    by (auto simp: has_group_def G_def neq_Nil_conv split: option.splits)
  define target where "target = targetEpic cur first (first # rest)"
  obtain pre post where d: "first # rest = pre @ target # post"
    "\<forall>e\<in>set pre. load cur target < load cur e" "\<forall>e\<in>set post. load cur target \<le> load cur e"
    using targetEpic_decomposition [of first rest cur] unfolding target_def by blast
  have step: "distribute_step pf cols G cur r
                = attachChild cur (snd target) (makeDistributedChild pf cols r (fst target))"
    using g by (simp add: distribute_step_def Let_def target_def)
  have "target \<in> set (G projectKey)" using d(1) g(2) by simp
  then have "snd target < length cur"
    using epicsByProject_addresses [of lc es] h unfolding G_def by auto
  then have cnt: "childCount (distribute_step pf cols G cur r) = childCount cur + 1"
    unfolding step by (rule childCount_attachChild)
  have "getProjectKey (cell r (keyCol cols)) = Some projectKey
        \<and> G projectKey = pre @ target # post
        \<and> (\<forall>e\<in>set pre. load cur target < load cur e)
        \<and> (\<forall>e\<in>set post. load cur target \<le> load cur e)
        \<and> distribute_step pf cols G cur r
            = attachChild cur (snd target) (makeDistributedChild pf cols r (fst target))
        \<and> childCount (distribute_step pf cols G cur r) = childCount cur + 1"
    using g d step cnt by simp
  then show "\<exists>projectKey pre target post.
               getProjectKey (cell r (keyCol cols)) = Some projectKey
               \<and> epicsByProject lc es projectKey = pre @ target # post
               \<and> (\<forall>e\<in>set pre. load cur target < load cur e)
               \<and> (\<forall>e\<in>set post. load cur target \<le> load cur e)
               \<and> distribute_step pf cols (epicsByProject lc es) cur r
                   = attachChild cur (snd target)
                       (makeDistributedChild pf cols r (fst target))
               \<and> childCount (distribute_step pf cols (epicsByProject lc es) cur r)
                   = childCount cur + 1"
    unfolding G_def by blast
qed

subsection \<open>Merging and metrics\<close>

lemma calculateSLAStatus_total: "\<exists>status. calculateSLAStatus th s v = Inr status"
  using parseTimeInStatus_total [of v]
  by (auto simp: calculateSLAStatus_def Let_def)

text \<open>
  Claim C8. \<open>mergeEpicData\<close> returns a list as long as the epic list and raises nothing. An
  epic whose processing raises is replaced by itself with \<open>timeInStatus = -\<close>,
  \<open>cycleTime = -\<close> and the status \<open>on-track\<close>/\<open>Unknown\<close>; every other epic has the result of its
  own processing.
\<close>

theorem per_epic_failure_isolated:
  "\<exists>merged. mergeEpicData th (Array es) timeMapArg = Inr merged
     \<and> length merged = length es
     \<and> (\<forall>i<length es.
          (\<forall>err. mergeEpic_try th (time_map_of timeMapArg) (es ! i) = Inl err
             \<longrightarrow> merged ! i
                   = \<lparr>base = es ! i, timeInStatus = ''-'', cycleTime = NoCycleTime,
                      slaStatus = \<lparr>sla_class = ''on-track'', sla_text = ''Unknown''\<rparr>\<rparr>)
          \<and> (\<forall>m. mergeEpic_try th (time_map_of timeMapArg) (es ! i) = Inr m
                 \<longrightarrow> merged ! i = m))"
  by (auto simp: mergeEpicData_def time_map_of_def mergeEpic_def safeDefaults_def)

lemma mergeEpic_try_empty:
  "calculateSLAStatus th (epicStatus e) (JString ''-'') = Inr status \<Longrightarrow>
     mergeEpic_try th Map.empty e
       = Inr \<lparr>base = e, timeInStatus = ''-'', cycleTime = NoCycleTime, slaStatus = status\<rparr>"
  by (simp add: mergeEpic_try_def and_then_def or_default_def parseTimeInStatus_def)

lemma mergeEpicData_no_time_map:
  "i < length es \<Longrightarrow>
     \<exists>status. calculateSLAStatus th (epicStatus (es ! i)) (JString ''-'') = Inr status
       \<and> map (mergeEpic th Map.empty) es ! i
           = \<lparr>base = es ! i, timeInStatus = ''-'', cycleTime = NoCycleTime, slaStatus = status\<rparr>"
proof -
  assume i: "i < length es"
  obtain status where s: "calculateSLAStatus th (epicStatus (es ! i)) (JString ''-'') = Inr status"
    using calculateSLAStatus_total by blast
  then have "map (mergeEpic th Map.empty) es ! i
      = \<lparr>base = es ! i, timeInStatus = ''-'', cycleTime = NoCycleTime, slaStatus = status\<rparr>"
    using i by (simp add: mergeEpic_def mergeEpic_try_empty)
  then show ?thesis using s by blast
qed

text \<open>
  Claim C10. An epics argument that is no array gives the empty list. A missing time map
  gives what the empty time map gives: every epic gets \<open>timeInStatus = -\<close>, \<open>cycleTime = -\<close>
  and the status that \<open>calculateSLAStatus\<close> computes from the text \<open>-\<close>, which parses to
  \<open>0\<close> days.
\<close>

theorem missing_arguments_tolerated:
  "mergeEpicData th (NotArray v) timeMapArg = Inr []
   \<and> mergeEpicData th epicsArg None = mergeEpicData th epicsArg (Some Map.empty)
   \<and> parseTimeInStatus (JString ''-'') = Inr 0
   \<and> (\<exists>merged. mergeEpicData th (Array es) None = Inr merged \<and> length merged = length es
        \<and> (\<forall>i<length es. \<exists>status.
              calculateSLAStatus th (epicStatus (es ! i)) (JString ''-'') = Inr status
              \<and> merged ! i
                  = \<lparr>base = es ! i, timeInStatus = ''-'', cycleTime = NoCycleTime,
                     slaStatus = status\<rparr>))"
proof (intro conjI)
  have "mergeEpicData th (Array es) None = Inr (map (mergeEpic th Map.empty) es)"
    by (simp add: mergeEpicData_def)
  moreover have "length (map (mergeEpic th Map.empty) es) = length es" by simp
  ultimately show "\<exists>merged. mergeEpicData th (Array es) None = Inr merged
        \<and> length merged = length es
        \<and> (\<forall>i<length es. \<exists>status.
              calculateSLAStatus th (epicStatus (es ! i)) (JString ''-'') = Inr status
              \<and> merged ! i
                  = \<lparr>base = es ! i, timeInStatus = ''-'', cycleTime = NoCycleTime,
                     slaStatus = status\<rparr>)"
    using mergeEpicData_no_time_map [of _ es th] by blast
qed (simp_all add: mergeEpicData_def parseTimeInStatus_def split: js_array.splits)

text \<open>
  Claim C9, as the code has it. A failure inside \<open>processMainCSV\<close> is raised again as one
  error whose message names the stage, \<open>Failed to process main CSV data:\<close>, followed by
  the message of the failure. A failure inside \<open>calculateMetrics\<close> is not raised again:
  the function returns the minimal metrics, zero throughout but for the number of
  epics.
\<close>

theorem failure_propagation:
  "(processMainCSV_try lc pf data = Inl err
      \<longrightarrow> processMainCSV lc pf data
            = Inl (Error (''Failed to process main CSV data: '' @ message err)))
   \<and> (processMainCSV_try lc pf data = Inr result \<longrightarrow> processMainCSV lc pf data = Inr result)
   \<and> (calculateMetrics_try epicsArg = Inl err'
      \<longrightarrow> calculateMetrics epicsArg = Inr (minimalMetrics (epics_length epicsArg)))
   \<and> (calculateMetrics_try epicsArg = Inr m \<longrightarrow> calculateMetrics epicsArg = Inr m)"
  by (simp add: processMainCSV_def calculateMetrics_def epics_length_def)

section \<open>The statements at the examples\<close>

lemma link_columns_eval: "resolveColumns link_headers = link_columns"
  by code_simp

lemma link_hierarchy_eval:
  "buildHierarchy compare_bytes parseFloat_digits link_columns link_rows = Inr link_result"
  by code_simp

lemma spread_hierarchy_eval:
  "buildHierarchy compare_bytes parseFloat_digits link_columns spread_rows = Inr spread_result"
  by code_simp

lemma processMainCSV_columns:
  "resolveColumns hs = cols \<Longrightarrow>
     processMainCSV lc pf \<lparr>headers = hs, records = Array rs\<rparr>
       = (case buildHierarchy lc pf cols rs of
            Inr result \<Rightarrow> Inr result
          | Inl err \<Rightarrow> Inl (Error (''Failed to process main CSV data: '' @ message err)))"
  by (simp add: processMainCSV_def processMainCSV_try_def)

lemma link_eval:
  "processMainCSV compare_bytes parseFloat_digits
     \<lparr>headers = link_headers, records = Array link_rows\<rparr> = Inr link_result"
  by (simp add: processMainCSV_columns [OF link_columns_eval] link_hierarchy_eval)

lemma spread_eval:
  "processMainCSV compare_bytes parseFloat_digits
     \<lparr>headers = link_headers, records = Array spread_rows\<rparr> = Inr spread_result"
  by (simp add: processMainCSV_columns [OF link_columns_eval] spread_hierarchy_eval)

lemma pass2_eval:
  "linkedIssuesCount parseFloat_digits link_columns link_rows = 1
   \<and> linkedIssuesCount parseFloat_digits link_columns spread_rows = 1
   \<and> linkedEpics parseFloat_digits link_columns spread_rows = spread_linked"
  by code_simp

lemma spread_groups_eval:
  "epicsByProject compare_bytes spread_linked ''A-'' = [(''A-1'', 0), (''A-2'', 1)]
   \<and> length (filter (distributable compare_bytes link_columns spread_linked) spread_rows) = 1
   \<and> has_group link_columns (epicsByProject compare_bytes spread_linked) linked_story_row
   \<and> \<not> has_group link_columns (epicsByProject compare_bytes spread_linked) blank_row
   \<and> load spread_linked (''A-1'', 0) = 0 \<and> load spread_linked (''A-2'', 1) = 1"
  by code_simp

lemma link_cells:
  "issueTypeOf link_columns story_row = Some ''story''
   \<and> issueTypeOf link_columns first_epic_row = Some ''epic''
   \<and> cell first_epic_row (keyCol link_columns) = Some ''A-1''
   \<and> cell story_row (epicLinkCol link_columns) = Some ''A-1''
   \<and> cell story_row (parentCol link_columns) = Some ''102''
   \<and> cell second_epic_row (idCol link_columns) = Some ''102''
   \<and> truthy (epicLinkCol link_columns)
   \<and> storyPointsOf parseFloat_digits link_columns first_epic_row = 5
   \<and> storyPointsOf parseFloat_digits link_columns second_epic_row = 2
   \<and> storyPointsOf parseFloat_digits link_columns story_row = 3"
  by code_simp

lemma keyless_eval:
  "processMainCSV_try compare_bytes parseFloat_digits
     \<lparr>headers = [''Issue Type''], records = Array keyless_rows\<rparr>
   = Inl (TypeError ''Cannot read properties of undefined (reading localeCompare)'')"
  by code_simp

lemma merge_eval:
  "calculateMetrics_try (Array [odd_sprint_epic])
     = Inl (TypeError ''Cannot read properties of undefined (reading push)'')
   \<and> mergeEpic_try (getSLAThresholds None) example_times statusless_epic
     = Inl (TypeError ''Cannot read properties of undefined (reading toLowerCase)'')
   \<and> mergeEpic_try (getSLAThresholds None) example_times progressing_epic
     = Inr \<lparr>base = progressing_epic, timeInStatus = ''21d'', cycleTime = CycleDays 22,
            slaStatus = \<lparr>sla_class = ''at-risk'', sla_text = ''At Risk''\<rparr>\<rparr>
   \<and> calculateSLAStatus (getSLAThresholds None) (epicStatus statusless_epic) (JString ''-'')
     = Inr \<lparr>sla_class = ''on-track'', sla_text = ''On Track''\<rparr>
   \<and> calculateSLAStatus (getSLAThresholds None) (epicStatus progressing_epic) (JString ''-'')
     = Inr \<lparr>sla_class = ''on-track'', sla_text = ''On Track''\<rparr>"
  by code_simp

text \<open>
  The story names \<open>A-1\<close> in its Epic Link and the ID of \<open>A-2\<close> in its Parent: it is attached
  to \<open>A-1\<close>.
\<close>

theorem epic_link_wins_witness:
  "resolveColumns link_headers = link_columns
   \<and> processMainCSV compare_bytes parseFloat_digits
       \<lparr>headers = link_headers, records = Array link_rows\<rparr> = Inr link_result
   \<and> story_row \<in> set link_rows
   \<and> issueTypeOf link_columns story_row = Some ''story''
   \<and> cell story_row (epicLinkCol link_columns) = Some ''A-1''
   \<and> cell story_row (parentCol link_columns) = Some ''102''
   \<and> cell second_epic_row (idCol link_columns) = Some ''102''
   \<and> (\<exists>e\<in>set (epics link_result). epicKey e = Some ''A-1''
         \<and> makeChild parseFloat_digits link_columns story_row (Some ''A-1'') \<in> set (children e))
   \<and> attachments (Inr link_result) = [(Some ''A-1'', [(Some ''A-3'', None)]), (Some ''A-2'', [])]"
proof -
  note C = link_columns_eval
  have h1: "story_row \<in> set link_rows" "first_epic_row \<in> set link_rows"
    by (simp_all add: link_rows_def)
  have h7: "\<exists>e\<in>set link_rows. issueTypeOf link_columns e = Some ''epic''
      \<and> cell e (keyCol link_columns) = Some ''A-1''"
    using h1(2) link_cells by blast
  have c: "\<exists>e\<in>set (epics link_result). epicKey e = Some ''A-1''
         \<and> makeChild parseFloat_digits link_columns story_row (Some ''A-1'') \<in> set (children e)"
    using epic_link_wins [of link_columns "pass1 parseFloat_digits link_columns link_rows"
        story_row compare_bytes parseFloat_digits link_headers link_rows link_result "''A-1''"]
      link_eval h1(1) h7 link_cells unfolding C by simp
  have a: "attachments (Inr link_result)
             = [(Some ''A-1'', [(Some ''A-3'', None)]), (Some ''A-2'', [])]"
    by (simp add: attachments_def link_result_def example_epic_def example_child_def)
  show ?thesis using C link_eval h1(1) link_cells c a by blast
qed

text \<open>The two epics of the small export: own, total and completed points.\<close>

theorem story_points_invariant_witness:
  "resolveColumns link_headers = link_columns
   \<and> processMainCSV compare_bytes parseFloat_digits
       \<lparr>headers = link_headers, records = Array link_rows\<rparr> = Inr link_result
   \<and> list_all (\<lambda>r. 0 \<le> storyPointsOf parseFloat_digits link_columns r) link_rows
   \<and> list_all points_ok (epics link_result)
   \<and> map (\<lambda>e. (storyPoints e, totalStoryPoints e, completedStoryPoints e)) (epics link_result)
       = [(5, 8, 3), (2, 2, 2)]"
proof -
  note C = link_columns_eval
  have h: "\<forall>r\<in>set link_rows. 0 \<le> storyPointsOf parseFloat_digits link_columns r"
    using link_cells by (simp add: link_rows_def)
  have "\<forall>e\<in>set (epics link_result).
          storyPoints e \<le> totalStoryPoints e \<and> completedStoryPoints e \<le> totalStoryPoints e"
    using story_points_invariant [of compare_bytes parseFloat_digits link_headers link_rows
        link_result] link_eval h unfolding C by blast
  then have c: "list_all points_ok (epics link_result)"
    by (simp add: list_all_iff points_ok_def)
  have v: "map (\<lambda>e. (storyPoints e, totalStoryPoints e, completedStoryPoints e))
             (epics link_result) = [(5, 8, 3), (2, 2, 2)]"
    by (simp add: link_result_def example_epic_def)
  show ?thesis using C link_eval h c v by (simp add: list_all_iff)
qed

text \<open>
  One record of three linked: no distribution. One record of eleven linked: the
  distribution runs and attaches one more child.
\<close>

theorem fallback_threshold_witness:
  "resolveColumns link_headers = link_columns
   \<and> processMainCSV compare_bytes parseFloat_digits
       \<lparr>headers = link_headers, records = Array link_rows\<rparr> = Inr link_result
   \<and> linkedIssuesCount parseFloat_digits link_columns link_rows = 1 \<and> length link_rows = 3
   \<and> sortEpicsById compare_bytes (linkedEpics parseFloat_digits link_columns link_rows)
       = Inr (epics link_result)
   \<and> length (childIssues link_result) = 1
   \<and> processMainCSV compare_bytes parseFloat_digits
       \<lparr>headers = link_headers, records = Array spread_rows\<rparr> = Inr spread_result
   \<and> linkedIssuesCount parseFloat_digits link_columns spread_rows = 1 \<and> length spread_rows = 11
   \<and> length (filter (distributable compare_bytes link_columns
                        (linkedEpics parseFloat_digits link_columns spread_rows)) spread_rows) = 1
   \<and> length (childIssues spread_result) = 2"
proof -
  note C = link_columns_eval
  have n: "length link_rows = 3" "length spread_rows = 11"
    by (simp_all add: link_rows_def spread_rows_def)
  have a: "sortEpicsById compare_bytes (linkedEpics parseFloat_digits link_columns link_rows)
             = Inr (epics link_result)
           \<and> length (childIssues link_result)
               = linkedIssuesCount parseFloat_digits link_columns link_rows"
    using fallback_threshold [of compare_bytes parseFloat_digits link_headers link_rows
        link_result] link_eval pass2_eval n unfolding C by simp
  have b: "length (childIssues spread_result)
             = linkedIssuesCount parseFloat_digits link_columns spread_rows
               + length (filter (distributable compare_bytes link_columns
                   (linkedEpics parseFloat_digits link_columns spread_rows)) spread_rows)"
    using fallback_threshold [of compare_bytes parseFloat_digits link_headers spread_rows
        spread_result] spread_eval pass2_eval n unfolding C by simp
  show ?thesis
    using C link_eval spread_eval pass2_eval spread_groups_eval n a b by simp
qed

text \<open>
  Claim C4 as stated fails: the distribution also takes the records pass 2 has linked.
  In the export of eleven records the story is linked to \<open>A-2\<close> by its Epic Link and then
  attached to \<open>A-1\<close> by the distribution, so it is a child of two epics.
\<close>

theorem balanced_distribution_counterexample:
  "attachments (processMainCSV compare_bytes parseFloat_digits
                  \<lparr>headers = link_headers, records = Array spread_rows\<rparr>)
     = [(Some ''A-1'', [(Some ''A-3'', Some ''balanced-distribution'')]),
        (Some ''A-2'', [(Some ''A-3'', None)])]"
  by (simp add: spread_eval attachments_def spread_result_def example_epic_def
      example_child_def)

text \<open>
  After pass 2, \<open>A-1\<close> has no child and \<open>A-2\<close> has one: the story goes to \<open>A-1\<close>. A blank row
  changes nothing.
\<close>

theorem balanced_distribution_least_loaded_witness:
  "linkedEpics parseFloat_digits link_columns spread_rows = spread_linked
   \<and> epicsByProject compare_bytes spread_linked ''A-'' = [(''A-1'', 0), (''A-2'', 1)]
   \<and> sorted_wrt (\<lambda>a b. compare_bytes (fst a) (fst b) \<le> 0)
        (epicsByProject compare_bytes spread_linked ''A-'')
   \<and> load spread_linked (''A-1'', 0) = 0 \<and> load spread_linked (''A-2'', 1) = 1
   \<and> has_group link_columns (epicsByProject compare_bytes spread_linked) linked_story_row
   \<and> distribute_step parseFloat_digits link_columns (epicsByProject compare_bytes spread_linked)
         spread_linked linked_story_row
       = attachChild spread_linked 0
           (makeDistributedChild parseFloat_digits link_columns linked_story_row ''A-1'')
   \<and> \<not> has_group link_columns (epicsByProject compare_bytes spread_linked) blank_row
   \<and> distribute_step parseFloat_digits link_columns (epicsByProject compare_bytes spread_linked)
         spread_linked blank_row = spread_linked"
proof -
  let ?G = "epicsByProject compare_bytes spread_linked"
  note T = balanced_distribution_least_loaded
    [of compare_bytes parseFloat_digits link_columns spread_rows spread_linked "''A-1''" 0
        "''A-''" _ spread_linked]
  have s: "sorted_wrt (\<lambda>a b. compare_bytes (fst a) (fst b) \<le> 0) (?G ''A-'')"
    using T [of blank_row] consistent_compare_bytes by blast
  have b: "distribute_step parseFloat_digits link_columns ?G spread_linked blank_row
             = spread_linked"
    using T [of blank_row] spread_groups_eval by blast
  obtain projectKey pre target post where
    d: "getProjectKey (cell linked_story_row (keyCol link_columns)) = Some projectKey"
       "?G projectKey = pre @ target # post"
       "\<forall>e\<in>set pre. load spread_linked target < load spread_linked e"
       "distribute_step parseFloat_digits link_columns ?G spread_linked linked_story_row
          = attachChild spread_linked (snd target)
              (makeDistributedChild parseFloat_digits link_columns linked_story_row (fst target))"
    using T [of linked_story_row] spread_groups_eval by blast
  have pk: "getProjectKey (cell linked_story_row (keyCol link_columns)) = Some ''A-''"
    by code_simp
  then have g: "pre @ target # post = [(''A-1'', 0), (''A-2'', 1)]"
    using d(1,2) spread_groups_eval by simp
  have "target = (''A-1'', 0)"
  proof (cases pre)
    case Nil
    then show ?thesis using g by simp
  next
    case (Cons p ps)
    then have "p = (''A-1'', 0)" using g by simp
    then have "load spread_linked target < 0" using d(3) Cons spread_groups_eval by simp
    then show ?thesis by simp
  qed
  then have a: "distribute_step parseFloat_digits link_columns ?G spread_linked linked_story_row
      = attachChild spread_linked 0
          (makeDistributedChild parseFloat_digits link_columns linked_story_row ''A-1'')"
    using d(4) by simp
  show ?thesis using pass2_eval spread_groups_eval s a b by simp
qed

lemma two_elements: "length xs = Suc (Suc 0) \<Longrightarrow> xs = [xs ! 0, xs ! Suc 0]"
  by (cases xs; cases "tl xs") auto

text \<open>
  The first epic has no status and time data: its processing raises, and it gets the
  defaults. The second is processed as usual.
\<close>

theorem per_epic_failure_isolated_witness:
  "mergeEpic_try (getSLAThresholds None) (time_map_of (Some example_times)) statusless_epic
     = Inl (TypeError ''Cannot read properties of undefined (reading toLowerCase)'')
   \<and> mergeEpicData (getSLAThresholds None) (Array [statusless_epic, progressing_epic])
        (Some example_times)
     = Inr [\<lparr>base = statusless_epic, timeInStatus = ''-'', cycleTime = NoCycleTime,
             slaStatus = \<lparr>sla_class = ''on-track'', sla_text = ''Unknown''\<rparr>\<rparr>,
            \<lparr>base = progressing_epic, timeInStatus = ''21d'', cycleTime = CycleDays 22,
             slaStatus = \<lparr>sla_class = ''at-risk'', sla_text = ''At Risk''\<rparr>\<rparr>]"
proof -
  let ?th = "getSLAThresholds None"
  let ?es = "[statusless_epic, progressing_epic]"
  have t: "time_map_of (Some example_times) = example_times" by (simp add: time_map_of_def)
  obtain merged where m: "mergeEpicData ?th (Array ?es) (Some example_times) = Inr merged"
    "length merged = length ?es"
    "\<forall>i<length ?es.
       (\<forall>err. mergeEpic_try ?th (time_map_of (Some example_times)) (?es ! i) = Inl err
          \<longrightarrow> merged ! i
                = \<lparr>base = ?es ! i, timeInStatus = ''-'', cycleTime = NoCycleTime,
                   slaStatus = \<lparr>sla_class = ''on-track'', sla_text = ''Unknown''\<rparr>\<rparr>)
       \<and> (\<forall>m. mergeEpic_try ?th (time_map_of (Some example_times)) (?es ! i) = Inr m
              \<longrightarrow> merged ! i = m)"
    using per_epic_failure_isolated [of ?th ?es "Some example_times"] by blast
  have "merged ! 0 = \<lparr>base = statusless_epic, timeInStatus = ''-'', cycleTime = NoCycleTime,
                   slaStatus = \<lparr>sla_class = ''on-track'', sla_text = ''Unknown''\<rparr>\<rparr>"
    using m(3) merge_eval unfolding t by auto
  moreover have "merged ! 1 = \<lparr>base = progressing_epic, timeInStatus = ''21d'',
      cycleTime = CycleDays 22,
      slaStatus = \<lparr>sla_class = ''at-risk'', sla_text = ''At Risk''\<rparr>\<rparr>"
    using m(3) merge_eval unfolding t by auto
  moreover have "merged = [merged ! 0, merged ! 1]" using m(2) two_elements [of merged] by simp
  ultimately show ?thesis using m(1) merge_eval t by simp
qed

text \<open>No array, and no time map.\<close>

theorem missing_arguments_tolerated_witness:
  "mergeEpicData (getSLAThresholds None) (NotArray JNull) None = Inr []
   \<and> mergeEpicData (getSLAThresholds None) (NotArray (JString ''epics'')) (Some example_times)
       = Inr []
   \<and> mergeEpicData (getSLAThresholds None) (Array [statusless_epic, progressing_epic]) None
       = Inr [\<lparr>base = statusless_epic, timeInStatus = ''-'', cycleTime = NoCycleTime,
               slaStatus = \<lparr>sla_class = ''on-track'', sla_text = ''On Track''\<rparr>\<rparr>,
              \<lparr>base = progressing_epic, timeInStatus = ''-'', cycleTime = NoCycleTime,
               slaStatus = \<lparr>sla_class = ''on-track'', sla_text = ''On Track''\<rparr>\<rparr>]"
proof -
  let ?th = "getSLAThresholds None"
  let ?es = "[statusless_epic, progressing_epic]"
  note T = missing_arguments_tolerated [of ?th _ _ _ ?es]
  have a: "mergeEpicData ?th (NotArray JNull) None = Inr []"
    using T [of JNull None] by blast
  have b: "mergeEpicData ?th (NotArray (JString ''epics'')) (Some example_times) = Inr []"
    using T [of "JString ''epics''" "Some example_times"] by blast
  obtain merged where m: "mergeEpicData ?th (Array ?es) None = Inr merged"
    "length merged = length ?es"
    "\<forall>i<length ?es. \<exists>status.
        calculateSLAStatus ?th (epicStatus (?es ! i)) (JString ''-'') = Inr status
        \<and> merged ! i = \<lparr>base = ?es ! i, timeInStatus = ''-'', cycleTime = NoCycleTime,
                         slaStatus = status\<rparr>"
    using T [of JNull None] by blast
  have "merged ! 0 = \<lparr>base = statusless_epic, timeInStatus = ''-'', cycleTime = NoCycleTime,
                   slaStatus = \<lparr>sla_class = ''on-track'', sla_text = ''On Track''\<rparr>\<rparr>"
    using m(3) merge_eval by auto
  moreover have "merged ! 1 = \<lparr>base = progressing_epic, timeInStatus = ''-'',
      cycleTime = NoCycleTime,
      slaStatus = \<lparr>sla_class = ''on-track'', sla_text = ''On Track''\<rparr>\<rparr>"
    using m(3) merge_eval by auto
  moreover have "merged = [merged ! 0, merged ! 1]" using m(2) two_elements [of merged] by simp
  ultimately show ?thesis using m(1) a b by simp
qed

text \<open>
  Claim C9 as stated fails for \<open>calculateMetrics\<close>: on an epic whose sprint is named
  \<open>constructor\<close> the body raises a \<open>TypeError\<close>, and \<open>calculateMetrics\<close> returns the minimal
  metrics instead of raising.
\<close>

theorem failure_propagation_counterexample:
  "calculateMetrics_try (Array [odd_sprint_epic])
     = Inl (TypeError ''Cannot read properties of undefined (reading push)'')
   \<and> calculateMetrics (Array [odd_sprint_epic]) = Inr (minimalMetrics 1)"
  using merge_eval by (simp add: calculateMetrics_def)

text \<open>
  Two epics without a key column, and records that are \<open>null\<close>: \<open>processMainCSV\<close> raises the
  wrapped error. The sprint named \<open>constructor\<close>: \<open>calculateMetrics\<close> returns the minimal
  metrics.
\<close>

theorem failure_propagation_witness:
  "processMainCSV_try compare_bytes parseFloat_digits
     \<lparr>headers = [''Issue Type''], records = Array keyless_rows\<rparr>
     = Inl (TypeError ''Cannot read properties of undefined (reading localeCompare)'')
   \<and> processMainCSV compare_bytes parseFloat_digits
       \<lparr>headers = [''Issue Type''], records = Array keyless_rows\<rparr>
     = Inl (Error ''Failed to process main CSV data: Cannot read properties of undefined (reading localeCompare)'')
   \<and> processMainCSV compare_bytes parseFloat_digits
       \<lparr>headers = link_headers, records = NotArray JNull\<rparr>
     = Inl (Error ''Failed to process main CSV data: Cannot read properties of undefined (reading length)'')
   \<and> calculateMetrics_try (Array [odd_sprint_epic])
     = Inl (TypeError ''Cannot read properties of undefined (reading push)'')
   \<and> calculateMetrics (Array [odd_sprint_epic])
     = Inr \<lparr>overall = \<lparr>totalEpics = 1, totalCommitted = 0, totalCompleted = 0,
                        realization = 0, atRiskCount = 0, atRiskPercentage = 0\<rparr>,
            sprintData = []\<rparr>"
proof -
  have a: "processMainCSV compare_bytes parseFloat_digits
       \<lparr>headers = [''Issue Type''], records = Array keyless_rows\<rparr>
     = Inl (Error (''Failed to process main CSV data: ''
          @ message (TypeError ''Cannot read properties of undefined (reading localeCompare)'')))"
    using failure_propagation
      [of compare_bytes parseFloat_digits
          "\<lparr>headers = [''Issue Type''], records = Array keyless_rows\<rparr>"
          "TypeError ''Cannot read properties of undefined (reading localeCompare)''"]
      keyless_eval by blast
  have t: "processMainCSV_try compare_bytes parseFloat_digits
       \<lparr>headers = link_headers, records = NotArray JNull\<rparr>
     = Inl (TypeError ''Cannot read properties of undefined (reading length)'')"
    by (simp add: processMainCSV_try_def)
  have b: "processMainCSV compare_bytes parseFloat_digits
       \<lparr>headers = link_headers, records = NotArray JNull\<rparr>
     = Inl (Error (''Failed to process main CSV data: ''
          @ message (TypeError ''Cannot read properties of undefined (reading length)'')))"
    using failure_propagation
      [of compare_bytes parseFloat_digits "\<lparr>headers = link_headers, records = NotArray JNull\<rparr>"
          "TypeError ''Cannot read properties of undefined (reading length)''"] t
    by blast
  have c: "calculateMetrics (Array [odd_sprint_epic])
             = Inr (minimalMetrics (epics_length (Array [odd_sprint_epic])))"
    using failure_propagation
      [of _ _ _ _ _ "Array [odd_sprint_epic]"
          "TypeError ''Cannot read properties of undefined (reading push)''"]
      merge_eval by blast
  show ?thesis
    using a b c keyless_eval merge_eval by (simp add: minimalMetrics_def epics_length_def)
qed

end
